theory Spec2Isabelle
  imports Complex_Main "HOL-Library.List_Lexorder" "HOL-Library.Multiset"
begin

section \<open>Python values used by \<open>main.py\<close>\<close>

text \<open>
  A Python \<open>str\<close> is a sequence of Unicode code points; it is modelled as the list of
  its code points. Lists of code points are compared lexicographically
  (\<open>HOL-Library.List_Lexorder\<close>), as Python compares strings. \<open>py\<close> turns an ASCII
  literal of the source into such a list.
\<close>

type_synonym str = "nat list"

definition py :: "string \<Rightarrow> str" where
  "py s = map of_char s"

text \<open>
  \<open>str.strip()\<close> without argument removes leading and trailing characters for which
  \<open>str.isspace\<close> holds: the code points U+0009..U+000D, U+001C..U+0020, U+0085, U+00A0,
  U+1680, U+2000..U+200A, U+2028, U+2029, U+202F, U+205F and U+3000.
\<close>

definition isspace :: "nat \<Rightarrow> bool" where
  "isspace c =
     ((9 \<le> c \<and> c \<le> 13) \<or> (28 \<le> c \<and> c \<le> 32) \<or> c = 133 \<or> c = 160 \<or> c = 5760 \<or>
      (8192 \<le> c \<and> c \<le> 8202) \<or> c = 8232 \<or> c = 8233 \<or> c = 8239 \<or> c = 8287 \<or> c = 12288)"

definition strip :: "str \<Rightarrow> str" where
  "strip s = rev (dropWhile isspace (rev (dropWhile isspace s)))"

text \<open>\<open>sep.join(xs)\<close>.\<close>

fun str_join :: "str \<Rightarrow> str list \<Rightarrow> str" where
  "str_join sep [] = []"
| "str_join sep [x] = x"
| "str_join sep (x # y # ys) = x @ sep @ str_join sep (y # ys)"

text \<open>\<open>s.endswith(suffix)\<close>.\<close>

definition endswith :: "str \<Rightarrow> str \<Rightarrow> bool" where
  "endswith s suf = (length suf \<le> length s \<and> drop (length s - length suf) s = suf)"

text \<open>The decimal digits of a non-negative integer, as an f-string prints it.\<close>

fun str_of_nat :: "nat \<Rightarrow> str" where
  "str_of_nat n = (if n < 10 then [48 + n] else str_of_nat (n div 10) @ [48 + n mod 10])"

declare str_of_nat.simps [simp del]

text \<open>An exception raised by an external call, with the text that identifies it.\<close>

datatype error = Raised str

section \<open>Data of the pipeline\<close>

text \<open>
  What the document reader hands over for one slide: \<open>slide.has_notes_slide\<close>, and
  \<open>slide.notes_slide.notes_text_frame\<close> as the texts of its paragraphs (\<open>None\<close> when the
  notes slide has no text frame).
\<close>

record slide =
  has_notes_slide :: bool
  notes_text_frame :: "str list option"

text \<open>The dictionaries \<open>{"index": i, "notes": ...}\<close> and \<open>{"code": ..., "label": ...}\<close>.\<close>

record slide_data =
  sd_index :: nat
  sd_notes :: str

record lang_entry =
  le_code :: str
  le_label :: str

record voice =
  language_code :: str
  voice_name :: str

text \<open>
  A slide clip as \<open>assemble_video\<close> builds it: the image, the display duration and the
  audio file attached by \<open>with_audio\<close>, if any. Python floats are read as real numbers;
  the two constants of the source, 1.5 and 4.0, are exact in both.
\<close>

record clip =
  clip_image :: str
  clip_duration :: real
  clip_audio :: "str option"

section \<open>External calls\<close>

text \<open>
  Every call that leaves the script: the document reader, the automation of the
  presentation application, the file system, the translation service, the speech
  service and the video library. The arguments are those of the source. The progress
  messages the script prints are not part of the model.
\<close>

datatype call =
    Makedirs str
  | Presentation str
  | Dispatch str
  | SetVisible bool
  | PresentationsOpen str bool
  | SaveAs str nat
  | PresentationClose
  | ApplicationQuit
  | Listdir str
  | GoogleTranslate str str str
  | GTTS str str
  | TtsSave str
  | AudioFileClip str
  | ImageClip str real
  | ConcatenateVideoclips "clip list" str
  | WriteVideofile str nat str bool str nat

type_synonym history = "call list"

text \<open>
  The environment of a run. The functions of \<open>os.path\<close> are pure functions of the
  platform. An external service answers a call with a value or raises; its answer may
  depend on every call made before (the history), which covers a file system that
  changes and a network that fails from some moment on. Calls that return nothing the
  script uses are answered by \<open>command\<close>: \<open>None\<close> when the call succeeds, the exception
  otherwise.
\<close>

record env =
  path_join :: "str \<Rightarrow> str \<Rightarrow> str"
  path_abspath :: "str \<Rightarrow> str"
  path_dirname :: "str \<Rightarrow> str"
  path_basename :: "str \<Rightarrow> str"
  path_splitext :: "str \<Rightarrow> str \<times> str"
  script_file :: str
  open_presentation :: "history \<Rightarrow> str \<Rightarrow> error + slide list"
  listdir :: "history \<Rightarrow> str \<Rightarrow> error + str list"
  translate :: "history \<Rightarrow> str \<Rightarrow> str \<Rightarrow> str \<Rightarrow> error + str"
  audio_duration :: "history \<Rightarrow> str \<Rightarrow> error + real"
  command :: "history \<Rightarrow> call \<Rightarrow> error option"

text \<open>
  A computation takes the history of calls made so far and returns its result, or the
  exception that ended it, with the history extended by the calls it made. A call is
  recorded whether it succeeds or raises. No function of the source has a
  \<open>try\<close> statement, so \<open>io_bind\<close> is the only way two steps are put together: an
  exception of the first step is the exception of the whole.
\<close>

type_synonym 'a io = "history \<Rightarrow> (error + 'a) \<times> history"

definition io_return :: "'a \<Rightarrow> 'a io" where
  "io_return x = (\<lambda>h. (Inr x, h))"

definition io_bind :: "'a io \<Rightarrow> ('a \<Rightarrow> 'b io) \<Rightarrow> 'b io" where
  "io_bind m f = (\<lambda>h. case m h of (Inl err, h') \<Rightarrow> (Inl err, h') | (Inr x, h') \<Rightarrow> f x h')"

definition call_command :: "env \<Rightarrow> call \<Rightarrow> unit io" where
  "call_command e c =
     (\<lambda>h. (case command e h c of Some err \<Rightarrow> Inl err | None \<Rightarrow> Inr (), h @ [c]))"

definition call_presentation :: "env \<Rightarrow> str \<Rightarrow> slide list io" where
  "call_presentation e pptx_path = (\<lambda>h. (open_presentation e h pptx_path, h @ [Presentation pptx_path]))"

definition call_listdir :: "env \<Rightarrow> str \<Rightarrow> str list io" where
  "call_listdir e d = (\<lambda>h. (listdir e h d, h @ [Listdir d]))"

definition call_translate :: "env \<Rightarrow> str \<Rightarrow> str \<Rightarrow> str \<Rightarrow> str io" where
  "call_translate e src tgt t = (\<lambda>h. (translate e h src tgt t, h @ [GoogleTranslate src tgt t]))"

definition call_audio_file_clip :: "env \<Rightarrow> str \<Rightarrow> real io" where
  "call_audio_file_clip e aud = (\<lambda>h. (audio_duration e h aud, h @ [AudioFileClip aud]))"

section \<open>Configuration\<close>

text \<open>
  The module's global names. Every function of the module can read them, so every
  function of the model takes them as the argument \<open>g\<close>.
\<close>

record globals =
  CURRENT_DIRECTORY :: str
  OUTPUT_DIR :: str
  TMP_DIR :: str
  LANGUAGES :: "lang_entry list"
  default_voice :: "str \<rightharpoonup> voice"
  POST_AUDIO_PADDING :: real

definition module_globals :: "env \<Rightarrow> globals" where
  "module_globals e =
     (let current_directory = path_dirname e (path_abspath e (script_file e)) in
      \<lparr> CURRENT_DIRECTORY = current_directory,
        OUTPUT_DIR = path_join e current_directory (py ''output_videos''),
        TMP_DIR = path_join e current_directory (py ''tmp_assets''),
        LANGUAGES =
          [\<lparr>le_code = py ''en'', le_label = py ''English''\<rparr>,
           \<lparr>le_code = py ''fr'', le_label = py ''French''\<rparr>,
           \<lparr>le_code = py ''es'', le_label = py ''Spanish''\<rparr>,
           \<lparr>le_code = py ''pt'', le_label = py ''Portuguese''\<rparr>,
           \<lparr>le_code = py ''hi'', le_label = py ''Hindi''\<rparr>,
           \<lparr>le_code = py ''si'', le_label = py ''Sinhala''\<rparr>],
        default_voice =
          [py ''en'' \<mapsto> \<lparr>language_code = py ''en-US'', voice_name = py ''en-US-Neural2-D''\<rparr>,
           py ''fr'' \<mapsto> \<lparr>language_code = py ''fr-FR'', voice_name = py ''fr-FR-Neural2-A''\<rparr>,
           py ''es'' \<mapsto> \<lparr>language_code = py ''es-ES'', voice_name = py ''es-ES-Neural2-A''\<rparr>,
           py ''pt'' \<mapsto> \<lparr>language_code = py ''pt-BR'', voice_name = py ''pt-BR-Neural2-A''\<rparr>,
           py ''hi'' \<mapsto> \<lparr>language_code = py ''hi-IN'', voice_name = py ''hi-IN-Neural2-A''\<rparr>,
           py ''si'' \<mapsto> \<lparr>language_code = py ''si-LK'', voice_name = py ''si-LK-Standard-A''\<rparr>],
        POST_AUDIO_PADDING = 1.5 \<rparr>)"

text \<open>The two \<open>os.makedirs(..., exist_ok=True)\<close> calls made when the module is loaded.\<close>

definition module_init :: "env \<Rightarrow> globals io" where
  "module_init e =
     (let g = module_globals e in
      io_bind (call_command e (Makedirs (OUTPUT_DIR g))) (\<lambda>_.
      io_bind (call_command e (Makedirs (TMP_DIR g))) (\<lambda>_.
      io_return g)))"

section \<open>Step 1: presenter notes\<close>

definition notes_text_of :: "slide \<Rightarrow> str" where
  "notes_text_of s =
     (if has_notes_slide s then
        (case notes_text_frame s of
           Some paragraphs \<Rightarrow> strip (str_join (py [CHR 0x0A]) paragraphs)
         | None \<Rightarrow> py '''')
      else py '''')"

fun extract_notes_loop :: "nat \<Rightarrow> slide list \<Rightarrow> slide_data list \<Rightarrow> slide_data list" where
  "extract_notes_loop i [] slides_data = slides_data"
| "extract_notes_loop i (s # rest) slides_data =
     (let notes_text = notes_text_of s in
      extract_notes_loop (i + 1) rest
        (slides_data @
           [\<lparr>sd_index = i, sd_notes = (if notes_text \<noteq> [] then notes_text else py '''')\<rparr>]))"

definition extract_notes_from_pptx :: "env \<Rightarrow> globals \<Rightarrow> str \<Rightarrow> slide_data list io" where
  "extract_notes_from_pptx e g pptx_path =
     io_bind (call_presentation e pptx_path) (\<lambda>slides.
     io_return (extract_notes_loop 0 slides []))"

section \<open>Step 2: slide images\<close>

definition export_slides_as_images :: "env \<Rightarrow> globals \<Rightarrow> str \<Rightarrow> str \<Rightarrow> str list io" where
  "export_slides_as_images e g pptx_path out_dir =
     io_bind (call_command e (Dispatch (py ''PowerPoint.Application''))) (\<lambda>_.
     io_bind (call_command e (SetVisible True)) (\<lambda>_.
     io_bind (call_command e (PresentationsOpen (path_abspath e pptx_path) False)) (\<lambda>_.
     (let base = path_join e (path_abspath e out_dir) (py ''slide_image'') in
      io_bind (call_command e (SaveAs base 17)) (\<lambda>_.
      io_bind (call_command e PresentationClose) (\<lambda>_.
      io_bind (call_command e ApplicationQuit) (\<lambda>_.
      io_bind (call_listdir e base) (\<lambda>names.
      io_return
        (map (path_join e base) (filter (\<lambda>f. endswith f (py ''.JPG'')) (sort names)))))))))))"

section \<open>Step 3: translation\<close>

fun translate_loop :: "env \<Rightarrow> str \<Rightarrow> str list \<Rightarrow> str list \<Rightarrow> str list io" where
  "translate_loop e target_language [] results = io_return results"
| "translate_loop e target_language (t # rest) results =
     (if strip t = [] then translate_loop e target_language rest (results @ [py ''''])
      else
        io_bind (call_translate e (py ''auto'') target_language t) (\<lambda>res.
        translate_loop e target_language rest (results @ [res])))"

definition translate_texts :: "env \<Rightarrow> globals \<Rightarrow> str list \<Rightarrow> str \<Rightarrow> str list io" where
  "translate_texts e g texts target_language = translate_loop e target_language texts []"

section \<open>Step 4: narration\<close>

text \<open>\<open>tts = gTTS(text=text, lang=lang_code)\<close>, then \<open>tts.save(out_path)\<close>.\<close>

definition synthesize_speech :: "env \<Rightarrow> globals \<Rightarrow> str \<Rightarrow> str \<Rightarrow> str \<Rightarrow> str io" where
  "synthesize_speech e g text lang_code out_path =
     io_bind (call_command e (GTTS text lang_code)) (\<lambda>_.
     io_bind (call_command e (TtsSave out_path)) (\<lambda>_.
     io_return out_path))"

section \<open>Step 5: video\<close>

text \<open>
  The body of the loop of \<open>assemble_video\<close>. \<open>if aud:\<close> holds for a path that is
  neither \<open>None\<close> nor the empty string.
\<close>

definition slide_clip :: "env \<Rightarrow> globals \<Rightarrow> str \<Rightarrow> str option \<Rightarrow> clip io" where
  "slide_clip e g img aud =
     (case aud of
        Some a \<Rightarrow>
          if a \<noteq> [] then
            io_bind (call_audio_file_clip e a) (\<lambda>audio_clip_duration.
            (let duration = audio_clip_duration + POST_AUDIO_PADDING g in
             io_bind (call_command e (ImageClip img duration)) (\<lambda>_.
             io_return \<lparr>clip_image = img, clip_duration = duration, clip_audio = Some a\<rparr>)))
          else
            io_bind (call_command e (ImageClip img 4.0)) (\<lambda>_.
            io_return \<lparr>clip_image = img, clip_duration = 4.0, clip_audio = None\<rparr>)
      | None \<Rightarrow>
          io_bind (call_command e (ImageClip img 4.0)) (\<lambda>_.
          io_return \<lparr>clip_image = img, clip_duration = 4.0, clip_audio = None\<rparr>))"

fun assemble_loop :: "env \<Rightarrow> globals \<Rightarrow> (str \<times> str option) list \<Rightarrow> clip list \<Rightarrow> clip list io" where
  "assemble_loop e g [] clips = io_return clips"
| "assemble_loop e g ((img, aud) # rest) clips =
     io_bind (slide_clip e g img aud) (\<lambda>c.
     assemble_loop e g rest (clips @ [c]))"

definition assemble_video :: "env \<Rightarrow> globals \<Rightarrow> str list \<Rightarrow> str option list \<Rightarrow> str \<Rightarrow> unit io" where
  "assemble_video e g slide_images audio_files out_path =
     io_bind (assemble_loop e g (zip slide_images audio_files) []) (\<lambda>clips.
     io_bind (call_command e (ConcatenateVideoclips clips (py ''compose''))) (\<lambda>_.
     call_command e (WriteVideofile out_path 24 (py ''libx264'') True (py ''libmp3lame'') 4)))"

section \<open>The pipeline\<close>

text \<open>The loop over \<open>enumerate(lang_notes)\<close> that fills \<open>audio_files\<close>.\<close>

fun narration_loop ::
  "env \<Rightarrow> globals \<Rightarrow> str \<Rightarrow> nat \<Rightarrow> str list \<Rightarrow> str option list \<Rightarrow> str option list io" where
  "narration_loop e g code i [] audio_files = io_return audio_files"
| "narration_loop e g code i (txt # rest) audio_files =
     (if strip txt \<noteq> [] then
        (let audio_path =
               path_join e (TMP_DIR g)
                 (py ''slide_'' @ str_of_nat (i + 1) @ py ''_'' @ code @ py ''.mp3'') in
         io_bind (synthesize_speech e g txt code audio_path) (\<lambda>_.
         narration_loop e g code (i + 1) rest (audio_files @ [Some audio_path])))
      else narration_loop e g code (i + 1) rest (audio_files @ [None]))"

text \<open>The body of the loop over \<open>languages\<close>, and the loop.\<close>

definition run_pipeline_language ::
  "env \<Rightarrow> globals \<Rightarrow> str \<Rightarrow> str list \<Rightarrow> str list \<Rightarrow> lang_entry \<Rightarrow> unit io" where
  "run_pipeline_language e g pptx_path notes images lang =
     (let code = le_code lang in
      io_bind
        (if code \<noteq> py ''en'' then translate_texts e g notes code else io_return notes)
        (\<lambda>lang_notes.
      io_bind (narration_loop e g code 0 lang_notes []) (\<lambda>audio_files.
      (let out_file =
             path_join e (OUTPUT_DIR g)
               (fst (path_splitext e (path_basename e pptx_path)) @ py ''_'' @ code @ py ''.mp4'') in
       assemble_video e g images audio_files out_file))))"

fun run_pipeline_languages ::
  "env \<Rightarrow> globals \<Rightarrow> str \<Rightarrow> str list \<Rightarrow> str list \<Rightarrow> lang_entry list \<Rightarrow> unit io" where
  "run_pipeline_languages e g pptx_path notes images [] = io_return ()"
| "run_pipeline_languages e g pptx_path notes images (lang # rest) =
     io_bind (run_pipeline_language e g pptx_path notes images lang) (\<lambda>_.
     run_pipeline_languages e g pptx_path notes images rest)"

definition run_pipeline :: "env \<Rightarrow> globals \<Rightarrow> str \<Rightarrow> lang_entry list \<Rightarrow> unit io" where
  "run_pipeline e g pptx_path languages =
     io_bind (extract_notes_from_pptx e g pptx_path) (\<lambda>slides.
     (let notes = map sd_notes slides in
      io_bind (export_slides_as_images e g pptx_path (TMP_DIR g)) (\<lambda>images.
      run_pipeline_languages e g pptx_path notes images languages)))"

text \<open>
  The block under \<open>if __name__ == "__main__"\<close>, from the parsed arguments on: the
  positional \<open>pptx\<close> and the optional \<open>--languages\<close> (\<open>None\<close> when the option is not
  given, the list of its values otherwise).
\<close>

record args =
  pptx :: str
  languages :: "str list option"

definition main :: "env \<Rightarrow> globals \<Rightarrow> args \<Rightarrow> unit io" where
  "main e g a = (let langs = LANGUAGES g in run_pipeline e g (pptx a) langs)"

section \<open>Notions used to state the properties\<close>

text \<open>
  The calls \<open>translate_texts\<close> makes for a list of texts: one for each text that
  \<open>strip()\<close> leaves non-empty, in the order of the texts.
\<close>

definition translate_calls :: "str \<Rightarrow> str list \<Rightarrow> call list" where
  "translate_calls target_language texts =
     map (GoogleTranslate (py ''auto'') target_language) (filter (\<lambda>t. strip t \<noteq> []) texts)"

text \<open>
  The audio file of slide number \<open>i + 1\<close>, and the calls of the narration loop for the
  notes numbered from \<open>i\<close>: two for each note that \<open>strip()\<close> leaves non-empty.
\<close>

definition slide_audio_path :: "env \<Rightarrow> globals \<Rightarrow> str \<Rightarrow> nat \<Rightarrow> str" where
  "slide_audio_path e g code i =
     path_join e (TMP_DIR g) (py ''slide_'' @ str_of_nat (i + 1) @ py ''_'' @ code @ py ''.mp3'')"

definition narration_calls :: "env \<Rightarrow> globals \<Rightarrow> str \<Rightarrow> nat \<Rightarrow> str list \<Rightarrow> call list" where
  "narration_calls e g code i lang_notes =
     concat (map (\<lambda>(k, txt).
        if strip txt \<noteq> [] then [GTTS txt code, TtsSave (slide_audio_path e g code k)] else [])
       (enumerate i lang_notes))"

text \<open>
  The calls \<open>export_slides_as_images\<close> makes to the presentation application, before it
  reads the directory of the images.
\<close>

definition export_calls :: "env \<Rightarrow> str \<Rightarrow> str \<Rightarrow> call list" where
  "export_calls e pptx_path out_dir =
     [Dispatch (py ''PowerPoint.Application''), SetVisible True,
      PresentationsOpen (path_abspath e pptx_path) False,
      SaveAs (path_join e (path_abspath e out_dir) (py ''slide_image'')) 17,
      PresentationClose, ApplicationQuit]"

text \<open>The calls the loop of \<open>assemble_video\<close> makes to build one clip.\<close>

definition clip_calls :: "clip \<Rightarrow> call list" where
  "clip_calls c =
     (case clip_audio c of
        Some a \<Rightarrow> [AudioFileClip a, ImageClip (clip_image c) (clip_duration c)]
      | None \<Rightarrow> [ImageClip (clip_image c) (clip_duration c)])"

text \<open>The output paths of the \<open>write_videofile\<close> calls of a sequence of calls.\<close>

fun written_videos :: "call list \<Rightarrow> str list" where
  "written_videos [] = []"
| "written_videos (WriteVideofile out_path fps codec audio audio_codec threads # cs) =
     out_path # written_videos cs"
| "written_videos (c # cs) = written_videos cs"

text \<open>
  The exception with which the environment answers the call \<open>c\<close> made after the calls
  \<open>h\<close>, if it raises; and a sequence of calls made after \<open>h\<close> none of which raises.
\<close>

definition raises :: "env \<Rightarrow> history \<Rightarrow> call \<Rightarrow> error option" where
  "raises e h c =
     (case c of
        Presentation p \<Rightarrow> (case open_presentation e h p of Inl err \<Rightarrow> Some err | Inr v \<Rightarrow> None)
      | Listdir d \<Rightarrow> (case listdir e h d of Inl err \<Rightarrow> Some err | Inr v \<Rightarrow> None)
      | GoogleTranslate src tgt t \<Rightarrow>
          (case translate e h src tgt t of Inl err \<Rightarrow> Some err | Inr v \<Rightarrow> None)
      | AudioFileClip a \<Rightarrow> (case audio_duration e h a of Inl err \<Rightarrow> Some err | Inr v \<Rightarrow> None)
      | _ \<Rightarrow> command e h c)"

fun all_answered :: "env \<Rightarrow> history \<Rightarrow> call list \<Rightarrow> bool" where
  "all_answered e h [] = True"
| "all_answered e h (c # cs) = (raises e h c = None \<and> all_answered e (h @ [c]) cs)"

text \<open>
  The calls \<open>t\<close> made after \<open>h\<close> by a run with the result \<open>r\<close> end as the result says:
  when the run returned, every call was answered; when an exception ended the run, the
  last call raised this exception and every call before it was answered.
\<close>

definition ends_as :: "env \<Rightarrow> history \<Rightarrow> call list \<Rightarrow> error + 'a \<Rightarrow> bool" where
  "ends_as e h t r =
     (case r of
        Inr x \<Rightarrow> all_answered e h t
      | Inl err \<Rightarrow>
          t \<noteq> [] \<and> all_answered e h (butlast t) \<and> raises e (h @ butlast t) (last t) = Some err)"

section \<open>An environment for the examples\<close>

text \<open>
  Paths with \<open>/\<close> as the separator; a deck of three slides with the notes
  \<open>Hello\<close>, none and \<open>World\<close>; a translation service that puts the target language in
  front of the text; audio files of 2 seconds; no call raises.
\<close>

definition demo_slides :: "slide list" where
  "demo_slides =
     [\<lparr>has_notes_slide = True, notes_text_frame = Some [py ''Hello'']\<rparr>,
      \<lparr>has_notes_slide = False, notes_text_frame = None\<rparr>,
      \<lparr>has_notes_slide = True, notes_text_frame = Some [py '' World'', py '''']\<rparr>]"

definition demo_env :: env where
  "demo_env =
     \<lparr> path_join = (\<lambda>a b. a @ py ''/'' @ b),
       path_abspath = (\<lambda>p. p),
       path_dirname = (\<lambda>p. rev (drop 1 (dropWhile (\<lambda>c. c \<noteq> 47) (rev p)))),
       path_basename = (\<lambda>p. rev (takeWhile (\<lambda>c. c \<noteq> 47) (rev p))),
       path_splitext = (\<lambda>p.
         if 46 \<in> set p
         then (rev (drop 1 (dropWhile (\<lambda>c. c \<noteq> 46) (rev p))),
               rev (46 # takeWhile (\<lambda>c. c \<noteq> 46) (rev p)))
         else (p, [])),
       script_file = py ''/app/main.py'',
       open_presentation = (\<lambda>h p. Inr demo_slides),
       listdir = (\<lambda>h d. Inr [py ''Slide2.JPG'', py ''notes.txt'', py ''Slide3.JPG'', py ''Slide1.JPG'']),
       translate = (\<lambda>h src tgt t. Inr (tgt @ py '':'' @ t)),
       audio_duration = (\<lambda>h a. Inr 2),
       command = (\<lambda>h c. None) \<rparr>"

text \<open>The same environment with a translation service that answers a single space.\<close>

definition blank_env :: env where
  "blank_env = demo_env\<lparr>translate := (\<lambda>h src tgt t. Inr (py '' ''))\<rparr>"

text \<open>The same environment where saving any audio file for French raises.\<close>

definition failing_env :: env where
  "failing_env =
     demo_env\<lparr>command := (\<lambda>h c.
       case c of
         TtsSave out_path \<Rightarrow>
           if endswith out_path (py ''_fr.mp3'') then Some (Raised (py ''gTTSError'')) else None
       | _ \<Rightarrow> None)\<rparr>"

section \<open>Auxiliary lemmas\<close>

subsection \<open>Running computations\<close>

lemma io_bind_apply:
  "io_bind m f h = (case m h of (Inl err, h') \<Rightarrow> (Inl err, h') | (Inr x, h') \<Rightarrow> f x h')"
  by (simp add: io_bind_def)

lemma io_return_apply: "io_return x h = (Inr x, h)"
  by (simp add: io_return_def)

subsection \<open>Whitespace\<close>

lemma py_Nil: "py [] = []"
  by (simp add: py_def)

lemma strip_empty_iff: "strip s = [] \<longleftrightarrow> list_all isspace s"
proof -
  have "strip s = [] \<longleftrightarrow> (\<forall>x\<in>set (dropWhile isspace s). isspace x)"
    by (simp add: strip_def dropWhile_eq_Nil_conv)
  also have "\<dots> \<longleftrightarrow> dropWhile isspace s = []"
  proof (cases "dropWhile isspace s")
    case Nil
    show ?thesis unfolding Nil by simp
  next
    case (Cons a list)
    have mem: "a \<in> set (dropWhile isspace s)"
      unfolding Cons by simp
    have "\<not> isspace (hd (dropWhile isspace s))"
      by (rule hd_dropWhile) (simp only: Cons, simp)
    then have "\<not> isspace a"
      unfolding Cons by simp
    with mem have "\<not> (\<forall>x\<in>set (dropWhile isspace s). isspace x)"
      by blast
    moreover have "dropWhile isspace s \<noteq> []"
      unfolding Cons by simp
    ultimately show ?thesis by blast
  qed
  also have "\<dots> \<longleftrightarrow> list_all isspace s"
    by (simp add: list_all_iff)
  finally show ?thesis .
qed

subsection \<open>The translation loop\<close>

lemma translate_calls_Nil: "translate_calls tgt [] = []"
  by (simp add: translate_calls_def)

lemma translate_calls_Cons:
  "translate_calls tgt (t # ts) =
     (if strip t = [] then translate_calls tgt ts
      else GoogleTranslate (py ''auto'') tgt t # translate_calls tgt ts)"
  by (simp add: translate_calls_def)

lemma translate_loop_blank:
  "strip t = [] \<Longrightarrow>
     translate_loop e tgt (t # ts) acc h = translate_loop e tgt ts (acc @ [[]]) h"
  by (simp add: py_Nil)

lemma translate_loop_raise:
  "strip t \<noteq> [] \<Longrightarrow> translate e h (py ''auto'') tgt t = Inl err \<Longrightarrow>
     translate_loop e tgt (t # ts) acc h = (Inl err, h @ [GoogleTranslate (py ''auto'') tgt t])"
  by (simp add: io_bind_apply call_translate_def)

lemma translate_loop_answer:
  "strip t \<noteq> [] \<Longrightarrow> translate e h (py ''auto'') tgt t = Inr res \<Longrightarrow>
     translate_loop e tgt (t # ts) acc h =
       translate_loop e tgt ts (acc @ [res]) (h @ [GoogleTranslate (py ''auto'') tgt t])"
  by (simp add: io_bind_apply call_translate_def)

lemma translate_loop_Nil: "translate_loop e tgt [] acc h = (Inr acc, h)"
  by (simp add: io_return_def)

declare translate_loop.simps [simp del]

lemma translate_loop_Inr:
  "translate_loop e tgt ts acc h = (Inr out, h') \<Longrightarrow>
     \<exists>rs. out = acc @ rs \<and> length rs = length ts \<and> h' = h @ translate_calls tgt ts \<and>
       (\<forall>i<length ts. if strip (ts ! i) = [] then rs ! i = []
          else translate e (h @ translate_calls tgt (take i ts)) (py ''auto'') tgt (ts ! i) = Inr (rs ! i))"
proof (induction ts arbitrary: acc h)
  case Nil
  then show ?case by (simp add: translate_loop_Nil translate_calls_Nil)
next
  case (Cons t ts)
  show ?case
  proof (cases "strip t = []")
    case True
    with Cons.prems have "translate_loop e tgt ts (acc @ [[]]) h = (Inr out, h')"
      by (simp add: translate_loop_blank)
    from Cons.IH[OF this] obtain rs where rs: "out = (acc @ [[]]) @ rs" "length rs = length ts"
      "h' = h @ translate_calls tgt ts"
      "\<forall>i<length ts. if strip (ts ! i) = [] then rs ! i = []
          else translate e (h @ translate_calls tgt (take i ts)) (py ''auto'') tgt (ts ! i) = Inr (rs ! i)"
      by blast
    show ?thesis
      apply (rule exI[of _ "[] # rs"])
      using rs True
      apply (auto simp: translate_calls_Cons translate_calls_Nil nth_Cons split: nat.splits)
      done
  next
    case False
    show ?thesis
    proof (cases "translate e h (py ''auto'') tgt t")
      case (Inl err)
      with False Cons.prems show ?thesis by (simp add: translate_loop_raise)
    next
      case (Inr res)
      with False Cons.prems
      have run: "translate_loop e tgt ts (acc @ [res]) (h @ [GoogleTranslate (py ''auto'') tgt t]) = (Inr out, h')"
        by (simp add: translate_loop_answer)
      from Cons.IH[OF run] obtain rs where rs: "out = (acc @ [res]) @ rs" "length rs = length ts"
        "h' = (h @ [GoogleTranslate (py ''auto'') tgt t]) @ translate_calls tgt ts"
        "\<forall>i<length ts. if strip (ts ! i) = [] then rs ! i = []
            else translate e ((h @ [GoogleTranslate (py ''auto'') tgt t]) @ translate_calls tgt (take i ts)) (py ''auto'') tgt (ts ! i) = Inr (rs ! i)"
        by blast
      show ?thesis
        apply (rule exI[of _ "res # rs"])
        using rs False Inr
        apply (auto simp: translate_calls_Cons translate_calls_Nil nth_Cons split: nat.splits)
        done
    qed
  qed
qed

lemma translate_loop_Inl:
  "translate_loop e tgt ts acc h = (Inl err, h') \<Longrightarrow>
     \<exists>i<length ts. strip (ts ! i) \<noteq> [] \<and>
        translate e (h @ translate_calls tgt (take i ts)) (py ''auto'') tgt (ts ! i) = Inl err \<and>
        h' = h @ translate_calls tgt (take (Suc i) ts)"
proof (induction ts arbitrary: acc h)
  case Nil
  then show ?case by (simp add: translate_loop_Nil)
next
  case (Cons t ts)
  show ?case
  proof (cases "strip t = []")
    case True
    with Cons.prems have "translate_loop e tgt ts (acc @ [[]]) h = (Inl err, h')"
      by (simp add: translate_loop_blank)
    from Cons.IH[OF this] obtain i where i: "i < length ts" "strip (ts ! i) \<noteq> []"
      "translate e (h @ translate_calls tgt (take i ts)) (py ''auto'') tgt (ts ! i) = Inl err"
      "h' = h @ translate_calls tgt (take (Suc i) ts)"
      by blast
    show ?thesis
      apply (rule exI[of _ "Suc i"])
      using i True
      apply (simp add: translate_calls_Cons)
      done
  next
    case False
    show ?thesis
    proof (cases "translate e h (py ''auto'') tgt t")
      case (Inl err')
      with False Cons.prems have "err' = err" "h' = h @ [GoogleTranslate (py ''auto'') tgt t]"
        by (simp_all add: translate_loop_raise)
      with False Inl show ?thesis
        apply (intro exI[of _ 0])
        apply (simp add: translate_calls_Cons translate_calls_Nil)
        done
    next
      case (Inr res)
      with False Cons.prems
      have run: "translate_loop e tgt ts (acc @ [res]) (h @ [GoogleTranslate (py ''auto'') tgt t]) = (Inl err, h')"
        by (simp add: translate_loop_answer)
      from Cons.IH[OF run] obtain i where i: "i < length ts" "strip (ts ! i) \<noteq> []"
        "translate e ((h @ [GoogleTranslate (py ''auto'') tgt t]) @ translate_calls tgt (take i ts)) (py ''auto'') tgt (ts ! i) = Inl err"
        "h' = (h @ [GoogleTranslate (py ''auto'') tgt t]) @ translate_calls tgt (take (Suc i) ts)"
        by blast
      show ?thesis
        apply (rule exI[of _ "Suc i"])
        using i False
        apply (simp add: translate_calls_Cons)
        done
    qed
  qed
qed

subsection \<open>Calls that are answered\<close>

lemma all_answered_append:
  "all_answered e h (t @ u) = (all_answered e h t \<and> all_answered e (h @ t) u)"
  by (induction t arbitrary: h) auto

lemma raises_GTTS: "raises e h (GTTS tx code) = command e h (GTTS tx code)"
  by (simp add: raises_def)

lemma raises_TtsSave: "raises e h (TtsSave p) = command e h (TtsSave p)"
  by (simp add: raises_def)

subsection \<open>The narration loop\<close>

lemma synthesize_speech_apply:
  "synthesize_speech e g tx code p h =
     (case command e h (GTTS tx code) of
        Some err \<Rightarrow> (Inl err, h @ [GTTS tx code])
      | None \<Rightarrow>
          (case command e (h @ [GTTS tx code]) (TtsSave p) of
             Some err \<Rightarrow> (Inl err, h @ [GTTS tx code, TtsSave p])
           | None \<Rightarrow> (Inr p, h @ [GTTS tx code, TtsSave p])))"
  by (simp add: synthesize_speech_def io_bind_apply call_command_def io_return_def
      split: option.splits)

lemma narration_calls_Nil: "narration_calls e g code i [] = []"
  by (simp add: narration_calls_def enumerate_simps)

lemma narration_calls_Cons:
  "narration_calls e g code i (tx # rest) =
     (if strip tx \<noteq> [] then [GTTS tx code, TtsSave (slide_audio_path e g code i)] else []) @
     narration_calls e g code (Suc i) rest"
  by (simp add: narration_calls_def enumerate_simps)

lemma narration_loop_Nil: "narration_loop e g code i [] acc h = (Inr acc, h)"
  by (simp add: io_return_def)

lemma narration_loop_blank:
  "strip tx = [] \<Longrightarrow>
     narration_loop e g code i (tx # rest) acc h =
       narration_loop e g code (Suc i) rest (acc @ [None]) h"
  by simp

lemma narration_loop_raise1:
  "strip tx \<noteq> [] \<Longrightarrow> command e h (GTTS tx code) = Some err \<Longrightarrow>
     narration_loop e g code i (tx # rest) acc h = (Inl err, h @ [GTTS tx code])"
  by (simp add: io_bind_apply synthesize_speech_apply Let_def)

lemma narration_loop_raise2:
  "strip tx \<noteq> [] \<Longrightarrow> command e h (GTTS tx code) = None \<Longrightarrow>
   command e (h @ [GTTS tx code]) (TtsSave (slide_audio_path e g code i)) = Some err \<Longrightarrow>
     narration_loop e g code i (tx # rest) acc h =
       (Inl err, h @ [GTTS tx code, TtsSave (slide_audio_path e g code i)])"
  by (simp add: io_bind_apply synthesize_speech_apply slide_audio_path_def Let_def)

lemma narration_loop_ok:
  "strip tx \<noteq> [] \<Longrightarrow> command e h (GTTS tx code) = None \<Longrightarrow>
   command e (h @ [GTTS tx code]) (TtsSave (slide_audio_path e g code i)) = None \<Longrightarrow>
     narration_loop e g code i (tx # rest) acc h =
       narration_loop e g code (Suc i) rest (acc @ [Some (slide_audio_path e g code i)])
         (h @ [GTTS tx code, TtsSave (slide_audio_path e g code i)])"
  by (simp add: io_bind_apply synthesize_speech_apply slide_audio_path_def Let_def)

declare narration_loop.simps [simp del]

lemma narration_loop_Inr:
  "narration_loop e g code i ts acc h = (Inr audio, h') \<Longrightarrow>
     audio = acc @ map (\<lambda>(k, tx). if strip tx \<noteq> [] then Some (slide_audio_path e g code k) else None)
                     (enumerate i ts) \<and>
     h' = h @ narration_calls e g code i ts \<and>
     all_answered e h (narration_calls e g code i ts)"
proof (induction ts arbitrary: i acc h)
  case Nil
  then show ?case by (simp add: narration_loop_Nil narration_calls_Nil)
next
  case (Cons tx rest)
  show ?case
  proof (cases "strip tx = []")
    case True
    with Cons.prems
    have "narration_loop e g code (Suc i) rest (acc @ [None]) h = (Inr audio, h')"
      by (simp add: narration_loop_blank)
    from Cons.IH[OF this] True show ?thesis
      by (simp add: narration_calls_Cons enumerate_simps)
  next
    case False
    show ?thesis
    proof (cases "command e h (GTTS tx code)")
      case (Some err)
      with False Cons.prems show ?thesis by (simp add: narration_loop_raise1)
    next
      case None
      show ?thesis
      proof (cases "command e (h @ [GTTS tx code]) (TtsSave (slide_audio_path e g code i))")
        case (Some err)
        with False None Cons.prems show ?thesis by (simp add: narration_loop_raise2)
      next
        case ok: None
        with False None Cons.prems
        have "narration_loop e g code (Suc i) rest (acc @ [Some (slide_audio_path e g code i)])
                (h @ [GTTS tx code, TtsSave (slide_audio_path e g code i)]) = (Inr audio, h')"
          by (simp add: narration_loop_ok)
        from Cons.IH[OF this] False None ok show ?thesis
          by (simp add: narration_calls_Cons enumerate_simps raises_GTTS raises_TtsSave)
      qed
    qed
  qed
qed

lemma narration_loop_Inl:
  "narration_loop e g code i ts acc h = (Inl err, h') \<Longrightarrow>
     \<exists>t c u. narration_calls e g code i ts = t @ c # u \<and> all_answered e h t \<and>
       raises e (h @ t) c = Some err \<and> h' = h @ t @ [c]"
proof (induction ts arbitrary: i acc h)
  case Nil
  then show ?case by (simp add: narration_loop_Nil)
next
  case (Cons tx rest)
  show ?case
  proof (cases "strip tx = []")
    case True
    with Cons.prems
    have "narration_loop e g code (Suc i) rest (acc @ [None]) h = (Inl err, h')"
      by (simp add: narration_loop_blank)
    from Cons.IH[OF this] True show ?thesis
      by (simp add: narration_calls_Cons)
  next
    case False
    show ?thesis
    proof (cases "command e h (GTTS tx code)")
      case (Some err')
      with False Cons.prems have eq: "err' = err" "h' = h @ [GTTS tx code]"
        by (simp_all add: narration_loop_raise1)
      have "narration_calls e g code i (tx # rest) =
              [] @ GTTS tx code # (TtsSave (slide_audio_path e g code i) # narration_calls e g code (Suc i) rest)"
        using False by (simp add: narration_calls_Cons)
      moreover have "all_answered e h []" by simp
      moreover have "raises e (h @ []) (GTTS tx code) = Some err"
        using Some eq by (simp add: raises_GTTS)
      moreover have "h' = h @ [] @ [GTTS tx code]"
        using eq by simp
      ultimately show ?thesis by blast
    next
      case None
      show ?thesis
      proof (cases "command e (h @ [GTTS tx code]) (TtsSave (slide_audio_path e g code i))")
        case (Some err')
        with False None Cons.prems have eq: "err' = err"
          "h' = h @ [GTTS tx code, TtsSave (slide_audio_path e g code i)]"
          by (simp_all add: narration_loop_raise2)
        have "narration_calls e g code i (tx # rest) =
                [GTTS tx code] @ TtsSave (slide_audio_path e g code i) # narration_calls e g code (Suc i) rest"
          using False by (simp add: narration_calls_Cons)
        moreover have "all_answered e h [GTTS tx code]"
          using None by (simp add: raises_GTTS)
        moreover have "raises e (h @ [GTTS tx code]) (TtsSave (slide_audio_path e g code i)) = Some err"
          using Some eq by (simp add: raises_TtsSave)
        moreover have "h' = h @ [GTTS tx code] @ [TtsSave (slide_audio_path e g code i)]"
          using eq by simp
        ultimately show ?thesis by blast
      next
        case ok: None
        with False None Cons.prems
        have "narration_loop e g code (Suc i) rest (acc @ [Some (slide_audio_path e g code i)])
                (h @ [GTTS tx code, TtsSave (slide_audio_path e g code i)]) = (Inl err, h')"
          by (simp add: narration_loop_ok)
        from Cons.IH[OF this] obtain t c u where
          t: "narration_calls e g code (Suc i) rest = t @ c # u"
            "all_answered e (h @ [GTTS tx code, TtsSave (slide_audio_path e g code i)]) t"
            "raises e ((h @ [GTTS tx code, TtsSave (slide_audio_path e g code i)]) @ t) c = Some err"
            "h' = (h @ [GTTS tx code, TtsSave (slide_audio_path e g code i)]) @ t @ [c]"
          by blast
        let ?t = "[GTTS tx code, TtsSave (slide_audio_path e g code i)] @ t"
        have "narration_calls e g code i (tx # rest) = ?t @ c # u"
          using False t(1) by (simp add: narration_calls_Cons)
        moreover have "all_answered e h ?t"
          using None ok t(2) by (simp add: raises_GTTS raises_TtsSave)
        moreover have "raises e (h @ ?t) c = Some err"
          using t(3) by simp
        moreover have "h' = h @ ?t @ [c]"
          using t(4) by simp
        ultimately show ?thesis by blast
      qed
    qed
  qed
qed

subsection \<open>The calls of the two loops, whatever the result\<close>

lemma translate_calls_append:
  "translate_calls tgt (xs @ ys) = translate_calls tgt xs @ translate_calls tgt ys"
  by (simp add: translate_calls_def)

lemma translate_loop_calls:
  assumes "translate_loop e tgt ts acc h = (r, h')"
  shows "\<exists>t u. h' = h @ t \<and> translate_calls tgt ts = t @ u"
proof (cases r)
  case (Inl err)
  with assms obtain i where "h' = h @ translate_calls tgt (take (Suc i) ts)"
    using translate_loop_Inl by blast
  moreover have "translate_calls tgt ts =
      translate_calls tgt (take (Suc i) ts) @ translate_calls tgt (drop (Suc i) ts)"
    by (simp add: translate_calls_append [symmetric])
  ultimately show ?thesis by blast
next
  case (Inr out)
  with assms have "h' = h @ translate_calls tgt ts"
    using translate_loop_Inr by blast
  then show ?thesis by simp
qed

lemma translate_calls_member:
  "GoogleTranslate src tgt' x \<in> set (translate_calls tgt texts) \<Longrightarrow>
     strip x \<noteq> [] \<and> x \<in> set texts \<and> src = py ''auto'' \<and> tgt' = tgt"
  by (auto simp: translate_calls_def)

lemma narration_loop_calls:
  assumes "narration_loop e g code i ts acc h = (r, h')"
  shows "\<exists>t u. h' = h @ t \<and> narration_calls e g code i ts = t @ u"
proof (cases r)
  case (Inl err)
  with assms obtain t c u where "narration_calls e g code i ts = t @ c # u" "h' = h @ t @ [c]"
    using narration_loop_Inl by blast
  then have "h' = h @ (t @ [c]) \<and> narration_calls e g code i ts = (t @ [c]) @ u"
    by simp
  then show ?thesis by blast
next
  case (Inr audio)
  with assms have "h' = h @ narration_calls e g code i ts"
    using narration_loop_Inr by blast
  then show ?thesis by simp
qed

lemma narration_calls_member:
  "GTTS x l \<in> set (narration_calls e g code i ts) \<Longrightarrow> strip x \<noteq> [] \<and> x \<in> set ts \<and> l = code"
  by (induction ts arbitrary: i) (auto simp: narration_calls_Nil narration_calls_Cons split: if_splits)

subsection \<open>The body of the loop over the languages\<close>

lemma run_pipeline_language_apply:
  "run_pipeline_language e g pptx_path notes images lang h =
     (case (if le_code lang \<noteq> py ''en'' then translate_texts e g notes (le_code lang)
            else io_return notes) h of
        (Inl err, h1) \<Rightarrow> (Inl err, h1)
      | (Inr lang_notes, h1) \<Rightarrow>
          (case narration_loop e g (le_code lang) 0 lang_notes [] h1 of
             (Inl err, h2) \<Rightarrow> (Inl err, h2)
           | (Inr audio_files, h2) \<Rightarrow>
               assemble_video e g images audio_files
                 (path_join e (OUTPUT_DIR g)
                    (fst (path_splitext e (path_basename e pptx_path)) @ py ''_'' @ le_code lang @
                     py ''.mp4'')) h2))"
  by (simp add: run_pipeline_language_def Let_def io_bind_apply split: prod.splits sum.splits)

lemma translate_texts_length:
  "translate_texts e g texts tgt h = (Inr out, h') \<Longrightarrow> length out = length texts"
  using translate_loop_Inr[of e tgt texts "[]" h out h'] by (auto simp: translate_texts_def)

subsection \<open>Building the clips\<close>

lemma raises_AudioFileClip:
  "raises e h (AudioFileClip a) =
     (case audio_duration e h a of Inl err \<Rightarrow> Some err | Inr v \<Rightarrow> None)"
  by (simp add: raises_def)

lemma raises_ImageClip: "raises e h (ImageClip img d) = command e h (ImageClip img d)"
  by (simp add: raises_def)

lemma call_command_apply:
  "call_command e c h =
     (case command e h c of Some err \<Rightarrow> (Inl err, h @ [c]) | None \<Rightarrow> (Inr (), h @ [c]))"
  by (simp add: call_command_def split: option.splits)

text \<open>The clip without audio, and the runs of the loop body.\<close>

lemma slide_clip_silent:
  "aud = None \<or> aud = Some [] \<Longrightarrow>
     slide_clip e g img aud h =
       (case command e h (ImageClip img 4) of
          Some err \<Rightarrow> (Inl err, h @ [ImageClip img 4])
        | None \<Rightarrow>
            (Inr \<lparr>clip_image = img, clip_duration = 4, clip_audio = None\<rparr>, h @ [ImageClip img 4]))"
  by (auto simp: slide_clip_def io_bind_apply call_command_apply io_return_apply
      split: option.splits)

lemma slide_clip_audio:
  "a \<noteq> [] \<Longrightarrow>
     slide_clip e g img (Some a) h =
       (case audio_duration e h a of
          Inl err \<Rightarrow> (Inl err, h @ [AudioFileClip a])
        | Inr d \<Rightarrow>
            (case command e (h @ [AudioFileClip a]) (ImageClip img (d + POST_AUDIO_PADDING g)) of
               Some err \<Rightarrow>
                 (Inl err, h @ [AudioFileClip a, ImageClip img (d + POST_AUDIO_PADDING g)])
             | None \<Rightarrow>
                 (Inr \<lparr>clip_image = img, clip_duration = d + POST_AUDIO_PADDING g,
                       clip_audio = Some a\<rparr>,
                  h @ [AudioFileClip a, ImageClip img (d + POST_AUDIO_PADDING g)])))"
  by (simp add: slide_clip_def io_bind_apply call_command_apply call_audio_file_clip_def
      io_return_apply Let_def split: option.splits sum.splits)

lemma slide_clip_Inr:
  assumes "slide_clip e g img aud h = (Inr c, h')"
  shows "h' = h @ clip_calls c \<and> all_answered e h (clip_calls c) \<and> clip_image c = img \<and>
     (case aud of
        Some a \<Rightarrow>
          if a \<noteq> [] then
            clip_audio c = Some a \<and>
            (\<exists>d. audio_duration e h a = Inr d \<and> clip_duration c = d + POST_AUDIO_PADDING g)
          else clip_audio c = None \<and> clip_duration c = 4
      | None \<Rightarrow> clip_audio c = None \<and> clip_duration c = 4)"
proof (cases "aud = None \<or> aud = Some []")
  case True
  with assms slide_clip_silent[OF True, of e g img h]
  have "command e h (ImageClip img 4) = None"
    "c = \<lparr>clip_image = img, clip_duration = 4, clip_audio = None\<rparr>" "h' = h @ [ImageClip img 4]"
    by (auto split: option.splits)
  with True show ?thesis
    by (auto simp: clip_calls_def raises_ImageClip)
next
  case False
  then obtain a where a: "aud = Some a" "a \<noteq> []"
    by (cases aud) auto
  from assms a slide_clip_audio[OF a(2), of e g img h]
  obtain d where d: "audio_duration e h a = Inr d"
    "command e (h @ [AudioFileClip a]) (ImageClip img (d + POST_AUDIO_PADDING g)) = None"
    "c = \<lparr>clip_image = img, clip_duration = d + POST_AUDIO_PADDING g, clip_audio = Some a\<rparr>"
    "h' = h @ [AudioFileClip a, ImageClip img (d + POST_AUDIO_PADDING g)]"
    by (auto split: option.splits sum.splits)
  with a show ?thesis
    by (auto simp: clip_calls_def raises_ImageClip raises_AudioFileClip)
qed

lemma slide_clip_Inl:
  assumes "slide_clip e g img aud h = (Inl err, h')"
  shows "\<exists>t c. h' = h @ t @ [c] \<and> all_answered e h t \<and> raises e (h @ t) c = Some err \<and>
     list_all (\<lambda>c. (\<exists>a. c = AudioFileClip a) \<or> (\<exists>i d. c = ImageClip i d)) (t @ [c])"
proof (cases "aud = None \<or> aud = Some []")
  case True
  with assms slide_clip_silent[OF True, of e g img h]
  have "command e h (ImageClip img 4) = Some err" "h' = h @ [ImageClip img 4]"
    by (auto split: option.splits)
  then have "h' = h @ [] @ [ImageClip img 4] \<and> all_answered e h [] \<and>
      raises e (h @ []) (ImageClip img 4) = Some err \<and>
      list_all (\<lambda>c. (\<exists>a. c = AudioFileClip a) \<or> (\<exists>i d. c = ImageClip i d)) ([] @ [ImageClip img 4])"
    by (simp add: raises_ImageClip)
  then show ?thesis by blast
next
  case False
  then obtain a where a: "aud = Some a" "a \<noteq> []"
    by (cases aud) auto
  show ?thesis
  proof (cases "audio_duration e h a")
    case (Inl err')
    with assms a slide_clip_audio[OF a(2), of e g img h]
    have "err' = err" "h' = h @ [AudioFileClip a]"
      by auto
    with Inl have "h' = h @ [] @ [AudioFileClip a] \<and> all_answered e h [] \<and>
        raises e (h @ []) (AudioFileClip a) = Some err \<and>
        list_all (\<lambda>c. (\<exists>a. c = AudioFileClip a) \<or> (\<exists>i d. c = ImageClip i d)) ([] @ [AudioFileClip a])"
      by (simp add: raises_AudioFileClip)
    then show ?thesis by blast
  next
    case (Inr d)
    with assms a slide_clip_audio[OF a(2), of e g img h]
    have "command e (h @ [AudioFileClip a]) (ImageClip img (d + POST_AUDIO_PADDING g)) = Some err"
      "h' = h @ [AudioFileClip a, ImageClip img (d + POST_AUDIO_PADDING g)]"
      by (auto split: option.splits)
    with Inr have "h' = h @ [AudioFileClip a] @ [ImageClip img (d + POST_AUDIO_PADDING g)] \<and>
        all_answered e h [AudioFileClip a] \<and>
        raises e (h @ [AudioFileClip a]) (ImageClip img (d + POST_AUDIO_PADDING g)) = Some err \<and>
        list_all (\<lambda>c. (\<exists>a. c = AudioFileClip a) \<or> (\<exists>i d. c = ImageClip i d))
          ([AudioFileClip a] @ [ImageClip img (d + POST_AUDIO_PADDING g)])"
      by (simp add: raises_ImageClip raises_AudioFileClip)
    then show ?thesis by blast
  qed
qed

lemma clip_calls_kind:
  "list_all (\<lambda>c. (\<exists>a. c = AudioFileClip a) \<or> (\<exists>i d. c = ImageClip i d)) (clip_calls c)"
  by (simp add: clip_calls_def split: option.splits)

lemma clips_calls_kind:
  "list_all (\<lambda>c. (\<exists>a. c = AudioFileClip a) \<or> (\<exists>i d. c = ImageClip i d))
     (concat (map clip_calls cs))"
  by (induction cs) (simp_all add: clip_calls_kind)

subsection \<open>The loop of \<open>assemble_video\<close>\<close>

lemma assemble_loop_Nil: "assemble_loop e g [] clips h = (Inr clips, h)"
  by (simp add: io_return_apply)

lemma assemble_loop_Cons:
  "assemble_loop e g ((img, aud) # rest) clips h =
     (case slide_clip e g img aud h of
        (Inl err, h1) \<Rightarrow> (Inl err, h1)
      | (Inr c, h1) \<Rightarrow> assemble_loop e g rest (clips @ [c]) h1)"
  by (simp add: io_bind_apply)

declare assemble_loop.simps [simp del]

lemma assemble_loop_Inr:
  "assemble_loop e g ps acc h = (Inr clips, h') \<Longrightarrow>
     \<exists>cs. clips = acc @ cs \<and> length cs = length ps \<and>
       h' = h @ concat (map clip_calls cs) \<and>
       all_answered e h (concat (map clip_calls cs)) \<and>
       (\<forall>i<length ps.
          slide_clip e g (fst (ps ! i)) (snd (ps ! i)) (h @ concat (map clip_calls (take i cs))) =
            (Inr (cs ! i), h @ concat (map clip_calls (take (Suc i) cs))))"
proof (induction ps arbitrary: acc h)
  case Nil
  then show ?case by (simp add: assemble_loop_Nil)
next
  case (Cons p ps)
  obtain img aud where p: "p = (img, aud)"
    by (cases p)
  from Cons.prems p obtain c h1 where
    body: "slide_clip e g img aud h = (Inr c, h1)" and
    rest: "assemble_loop e g ps (acc @ [c]) h1 = (Inr clips, h')"
    by (auto simp: assemble_loop_Cons split: prod.splits sum.splits)
  from slide_clip_Inr[OF body] have h1: "h1 = h @ clip_calls c" "all_answered e h (clip_calls c)"
    by simp_all
  from Cons.IH[OF rest] obtain cs where cs: "clips = (acc @ [c]) @ cs" "length cs = length ps"
    "h' = h1 @ concat (map clip_calls cs)"
    "all_answered e h1 (concat (map clip_calls cs))"
    "\<forall>i<length ps.
        slide_clip e g (fst (ps ! i)) (snd (ps ! i)) (h1 @ concat (map clip_calls (take i cs))) =
          (Inr (cs ! i), h1 @ concat (map clip_calls (take (Suc i) cs)))"
    by blast
  have "\<forall>i<length (p # ps).
      slide_clip e g (fst ((p # ps) ! i)) (snd ((p # ps) ! i))
        (h @ concat (map clip_calls (take i (c # cs)))) =
        (Inr ((c # cs) ! i), h @ concat (map clip_calls (take (Suc i) (c # cs))))"
  proof (intro allI impI)
    fix i assume i: "i < length (p # ps)"
    show "slide_clip e g (fst ((p # ps) ! i)) (snd ((p # ps) ! i))
        (h @ concat (map clip_calls (take i (c # cs)))) =
        (Inr ((c # cs) ! i), h @ concat (map clip_calls (take (Suc i) (c # cs))))"
    proof (cases i)
      case 0
      with body p h1 show ?thesis by simp
    next
      case (Suc j)
      with i cs(5) h1 show ?thesis by simp
    qed
  qed
  moreover have "clips = acc @ (c # cs)" "length (c # cs) = length (p # ps)"
    using cs by simp_all
  moreover have "h' = h @ concat (map clip_calls (c # cs))"
    using cs h1 by simp
  moreover have "all_answered e h (concat (map clip_calls (c # cs)))"
    using cs h1 by (simp add: all_answered_append)
  ultimately show ?case by blast
qed

lemma assemble_loop_Inl:
  "assemble_loop e g ps acc h = (Inl err, h') \<Longrightarrow>
     \<exists>t c. h' = h @ t @ [c] \<and> all_answered e h t \<and> raises e (h @ t) c = Some err \<and>
       list_all (\<lambda>c. (\<exists>a. c = AudioFileClip a) \<or> (\<exists>i d. c = ImageClip i d)) (t @ [c])"
proof (induction ps arbitrary: acc h)
  case Nil
  then show ?case by (simp add: assemble_loop_Nil)
next
  case (Cons p ps)
  obtain img aud where p: "p = (img, aud)"
    by (cases p)
  obtain r1 h1 where body: "slide_clip e g img aud h = (r1, h1)"
    by (cases "slide_clip e g img aud h") blast
  show ?case
  proof (cases r1)
    case (Inl err')
    with Cons.prems p body have "slide_clip e g img aud h = (Inl err, h')"
      by (simp add: assemble_loop_Cons)
    from slide_clip_Inl[OF this] show ?thesis .
  next
    case (Inr c)
    with Cons.prems p body have rest: "assemble_loop e g ps (acc @ [c]) h1 = (Inl err, h')"
      by (simp add: assemble_loop_Cons)
    from body Inr have "slide_clip e g img aud h = (Inr c, h1)"
      by simp
    from slide_clip_Inr[OF this] have h1: "h1 = h @ clip_calls c" "all_answered e h (clip_calls c)"
      by simp_all
    from Cons.IH[OF rest] obtain t c' where t: "h' = h1 @ t @ [c']" "all_answered e h1 t"
      "raises e (h1 @ t) c' = Some err"
      "list_all (\<lambda>c. (\<exists>a. c = AudioFileClip a) \<or> (\<exists>i d. c = ImageClip i d)) (t @ [c'])"
      by blast
    have "h' = h @ (clip_calls c @ t) @ [c']"
      using t h1 by simp
    moreover have "all_answered e h (clip_calls c @ t)"
      using t h1 by (simp add: all_answered_append)
    moreover have "raises e (h @ (clip_calls c @ t)) c' = Some err"
      using t h1 by simp
    moreover have "list_all (\<lambda>c. (\<exists>a. c = AudioFileClip a) \<or> (\<exists>i d. c = ImageClip i d))
        ((clip_calls c @ t) @ [c'])"
      using t(4) clip_calls_kind[of c] by simp
    ultimately show ?thesis by blast
  qed
qed

subsection \<open>\<open>assemble_video\<close>\<close>

lemma assemble_video_apply:
  "assemble_video e g slide_images audio_files out_path h =
     (case assemble_loop e g (zip slide_images audio_files) [] h of
        (Inl err, h1) \<Rightarrow> (Inl err, h1)
      | (Inr clips, h1) \<Rightarrow>
          (case command e h1 (ConcatenateVideoclips clips (py ''compose'')) of
             Some err \<Rightarrow> (Inl err, h1 @ [ConcatenateVideoclips clips (py ''compose'')])
           | None \<Rightarrow>
               (case command e (h1 @ [ConcatenateVideoclips clips (py ''compose'')])
                       (WriteVideofile out_path 24 (py ''libx264'') True (py ''libmp3lame'') 4) of
                  Some err \<Rightarrow>
                    (Inl err,
                     h1 @ [ConcatenateVideoclips clips (py ''compose''),
                           WriteVideofile out_path 24 (py ''libx264'') True (py ''libmp3lame'') 4])
                | None \<Rightarrow>
                    (Inr (),
                     h1 @ [ConcatenateVideoclips clips (py ''compose''),
                           WriteVideofile out_path 24 (py ''libx264'') True (py ''libmp3lame'') 4]))))"
  by (simp add: assemble_video_def io_bind_apply call_command_apply
      split: prod.splits sum.splits option.splits)

subsection \<open>How a run ends\<close>

lemma ends_as_Inr: "ends_as e h t (Inr x) = all_answered e h t"
  by (simp add: ends_as_def)

lemma ends_as_Inl:
  "ends_as e h t (Inl err) =
     (\<exists>t0 c. t = t0 @ [c] \<and> all_answered e h t0 \<and> raises e (h @ t0) c = Some err)"
proof
  assume "ends_as e h t (Inl err)"
  then have "t = butlast t @ [last t]" "all_answered e h (butlast t)"
    "raises e (h @ butlast t) (last t) = Some err"
    by (simp_all add: ends_as_def)
  then show "\<exists>t0 c. t = t0 @ [c] \<and> all_answered e h t0 \<and> raises e (h @ t0) c = Some err"
    by blast
next
  assume "\<exists>t0 c. t = t0 @ [c] \<and> all_answered e h t0 \<and> raises e (h @ t0) c = Some err"
  then show "ends_as e h t (Inl err)"
    by (auto simp: ends_as_def)
qed

lemma ends_as_append:
  assumes "all_answered e h t1" and "ends_as e (h @ t1) t2 r"
  shows "ends_as e h (t1 @ t2) r"
proof (cases r)
  case (Inl err)
  with assms(2) obtain t0 c where "t2 = t0 @ [c]" "all_answered e (h @ t1) t0"
    "raises e ((h @ t1) @ t0) c = Some err"
    by (auto simp: ends_as_Inl)
  with assms(1) have "t1 @ t2 = (t1 @ t0) @ [c] \<and> all_answered e h (t1 @ t0) \<and>
      raises e (h @ (t1 @ t0)) c = Some err"
    by (simp add: all_answered_append)
  then have "\<exists>t0 c. t1 @ t2 = t0 @ [c] \<and> all_answered e h t0 \<and> raises e (h @ t0) c = Some err"
    by blast
  moreover from Inl have "ends_as e h (t1 @ t2) r =
      (\<exists>t0 c. t1 @ t2 = t0 @ [c] \<and> all_answered e h t0 \<and> raises e (h @ t0) c = Some err)"
    by (simp add: ends_as_Inl)
  ultimately show ?thesis by simp
next
  case (Inr x)
  with assms show ?thesis
    by (simp add: ends_as_Inr all_answered_append)
qed

lemma ends_as_retype:
  "ends_as e h t (Inl err :: error + 'a) = ends_as e h t (Inl err :: error + 'b)"
  by (simp add: ends_as_def)

lemma io_bind_ends_as:
  assumes run: "io_bind m f h = (r, h')"
    and first: "\<And>r1 h1. m h = (r1, h1) \<Longrightarrow> \<exists>t. h1 = h @ t \<and> ends_as e h t r1"
    and second: "\<And>x h1. \<exists>t. snd (f x h1) = h1 @ t \<and> ends_as e h1 t (fst (f x h1))"
  shows "\<exists>t. h' = h @ t \<and> ends_as e h t r"
proof -
  obtain r1 h1 where m: "m h = (r1, h1)"
    by (cases "m h") blast
  from first[OF m] obtain t1 where t1: "h1 = h @ t1" "ends_as e h t1 r1"
    by blast
  show ?thesis
  proof (cases r1)
    case (Inl err)
    with run m have "r = Inl err" "h' = h1"
      by (simp_all add: io_bind_apply)
    with t1 Inl show ?thesis
      using ends_as_retype by blast
  next
    case (Inr x)
    with run m have fx: "f x h1 = (r, h')"
      by (simp add: io_bind_apply)
    from second[of x h1] fx obtain t2 where t2: "h' = h1 @ t2" "ends_as e h1 t2 r"
      by auto
    from t1 Inr have "all_answered e h t1"
      by (simp add: ends_as_Inr)
    with t2 t1(1) have "h' = h @ (t1 @ t2) \<and> ends_as e h (t1 @ t2) r"
      by (simp add: ends_as_append)
    then show ?thesis by blast
  qed
qed

text \<open>The single calls.\<close>

lemma raises_command:
  assumes "\<And>p. c \<noteq> Presentation p" and "\<And>d. c \<noteq> Listdir d"
    and "\<And>s t x. c \<noteq> GoogleTranslate s t x" and "\<And>a. c \<noteq> AudioFileClip a"
  shows "raises e h c = command e h c"
  using assms by (cases c; simp add: raises_def; blast)

lemma call_command_ends_as:
  assumes "\<And>p. c \<noteq> Presentation p" and "\<And>d. c \<noteq> Listdir d"
    and "\<And>s t x. c \<noteq> GoogleTranslate s t x" and "\<And>a. c \<noteq> AudioFileClip a"
  shows "\<exists>t. snd (call_command e c h) = h @ t \<and> ends_as e h t (fst (call_command e c h))"
proof -
  have "raises e h c = command e h c"
    using assms by (rule raises_command)
  then have "snd (call_command e c h) = h @ [c] \<and> ends_as e h [c] (fst (call_command e c h))"
    by (simp add: call_command_apply ends_as_def split: option.splits)
  then show ?thesis by blast
qed

lemma call_presentation_ends_as:
  "\<exists>t. snd (call_presentation e p h) = h @ t \<and> ends_as e h t (fst (call_presentation e p h))"
proof -
  have "snd (call_presentation e p h) = h @ [Presentation p] \<and>
      ends_as e h [Presentation p] (fst (call_presentation e p h))"
    by (simp add: call_presentation_def ends_as_def raises_def split: sum.splits)
  then show ?thesis by blast
qed

lemma call_listdir_ends_as:
  "\<exists>t. snd (call_listdir e d h) = h @ t \<and> ends_as e h t (fst (call_listdir e d h))"
proof -
  have "snd (call_listdir e d h) = h @ [Listdir d] \<and>
      ends_as e h [Listdir d] (fst (call_listdir e d h))"
    by (simp add: call_listdir_def ends_as_def raises_def split: sum.splits)
  then show ?thesis by blast
qed

lemma call_translate_ends_as:
  "\<exists>t. snd (call_translate e s tgt x h) = h @ t \<and>
     ends_as e h t (fst (call_translate e s tgt x h))"
proof -
  have "snd (call_translate e s tgt x h) = h @ [GoogleTranslate s tgt x] \<and>
      ends_as e h [GoogleTranslate s tgt x] (fst (call_translate e s tgt x h))"
    by (simp add: call_translate_def ends_as_def raises_def split: sum.splits)
  then show ?thesis by blast
qed

lemma io_return_ends_as:
  "\<exists>t. snd (io_return x h) = h @ t \<and> ends_as e h t (fst (io_return x h))"
  by (simp add: io_return_apply ends_as_Inr)

text \<open>The rule for \<open>io_bind\<close>, with both steps in the form of the conclusion.\<close>

lemma io_bind_ends_as':
  assumes first: "\<And>h. \<exists>t. snd (m h) = h @ t \<and> ends_as e h t (fst (m h))"
    and second: "\<And>x h. \<exists>t. snd (f x h) = h @ t \<and> ends_as e h t (fst (f x h))"
  shows "\<exists>t. snd (io_bind m f h) = h @ t \<and> ends_as e h t (fst (io_bind m f h))"
proof -
  have "io_bind m f h = (fst (io_bind m f h), snd (io_bind m f h))"
    by simp
  then show ?thesis
  proof (rule io_bind_ends_as)
    fix r1 h1 assume "m h = (r1, h1)"
    with first[of h] show "\<exists>t. h1 = h @ t \<and> ends_as e h t r1"
      by simp
  next
    fix x h1
    from second[of x h1] show "\<exists>t. snd (f x h1) = h1 @ t \<and> ends_as e h1 t (fst (f x h1))" .
  qed
qed

subsection \<open>The steps of the pipeline end as their result says\<close>

lemma extract_notes_ends_as:
  "\<exists>t. snd (extract_notes_from_pptx e g p h) = h @ t \<and>
     ends_as e h t (fst (extract_notes_from_pptx e g p h))"
  unfolding extract_notes_from_pptx_def
  by (intro io_bind_ends_as' call_presentation_ends_as io_return_ends_as)

lemma export_slides_ends_as:
  "\<exists>t. snd (export_slides_as_images e g p d h) = h @ t \<and>
     ends_as e h t (fst (export_slides_as_images e g p d h))"
  unfolding export_slides_as_images_def Let_def
  by (intro io_bind_ends_as' call_command_ends_as call_listdir_ends_as io_return_ends_as)
    simp_all

lemma translate_loop_ends_as:
  "\<exists>t. snd (translate_loop e tgt ts acc h) = h @ t \<and>
     ends_as e h t (fst (translate_loop e tgt ts acc h))"
proof (induction ts arbitrary: acc h)
  case Nil
  show ?case by (simp add: translate_loop_Nil ends_as_Inr)
next
  case (Cons t ts)
  show ?case
  proof (cases "strip t = []")
    case True
    with Cons.IH show ?thesis by (simp add: translate_loop_blank)
  next
    case False
    have "translate_loop e tgt (t # ts) acc =
        io_bind (call_translate e (py ''auto'') tgt t) (\<lambda>res. translate_loop e tgt ts (acc @ [res]))"
      using False by (simp add: translate_loop.simps fun_eq_iff)
    then show ?thesis
      by (simp only:) (intro io_bind_ends_as' call_translate_ends_as Cons.IH)
  qed
qed

lemma translate_texts_ends_as:
  "\<exists>t. snd (translate_texts e g texts tgt h) = h @ t \<and>
     ends_as e h t (fst (translate_texts e g texts tgt h))"
  by (simp add: translate_texts_def translate_loop_ends_as)

lemma narration_loop_ends_as:
  "\<exists>t. snd (narration_loop e g code i ts acc h) = h @ t \<and>
     ends_as e h t (fst (narration_loop e g code i ts acc h))"
proof -
  obtain r h' where run: "narration_loop e g code i ts acc h = (r, h')"
    by (cases "narration_loop e g code i ts acc h") blast
  show ?thesis
  proof (cases r)
    case (Inl err)
    with run narration_loop_Inl[of e g code i ts acc h err h']
    obtain t c where "all_answered e h t" "raises e (h @ t) c = Some err" "h' = h @ t @ [c]"
      by blast
    then have "h' = h @ (t @ [c]) \<and> ends_as e h (t @ [c]) (Inl err :: error + str option list)"
      unfolding ends_as_Inl by auto
    with run Inl show ?thesis by auto
  next
    case (Inr audio)
    with run narration_loop_Inr[of e g code i ts acc h audio h']
    have "h' = h @ narration_calls e g code i ts"
      "all_answered e h (narration_calls e g code i ts)"
      by simp_all
    with run Inr show ?thesis by (auto simp: ends_as_Inr)
  qed
qed

lemma assemble_loop_ends_as:
  "\<exists>t. snd (assemble_loop e g ps acc h) = h @ t \<and>
     ends_as e h t (fst (assemble_loop e g ps acc h))"
proof -
  obtain r h' where run: "assemble_loop e g ps acc h = (r, h')"
    by (cases "assemble_loop e g ps acc h") blast
  show ?thesis
  proof (cases r)
    case (Inl err)
    with run assemble_loop_Inl[of e g ps acc h err h']
    obtain t c where "all_answered e h t" "raises e (h @ t) c = Some err" "h' = h @ t @ [c]"
      by blast
    then have "h' = h @ (t @ [c]) \<and> ends_as e h (t @ [c]) (Inl err :: error + clip list)"
      unfolding ends_as_Inl by auto
    with run Inl show ?thesis by auto
  next
    case (Inr clips)
    with run assemble_loop_Inr[of e g ps acc h clips h']
    obtain cs where "h' = h @ concat (map clip_calls cs)"
      "all_answered e h (concat (map clip_calls cs))"
      by blast
    with run Inr show ?thesis by (auto simp: ends_as_Inr)
  qed
qed

lemma assemble_video_ends_as:
  "\<exists>t. snd (assemble_video e g imgs auds out h) = h @ t \<and>
     ends_as e h t (fst (assemble_video e g imgs auds out h))"
  unfolding assemble_video_def
  by (intro io_bind_ends_as' call_command_ends_as assemble_loop_ends_as) simp_all

lemma run_pipeline_language_ends_as:
  "\<exists>t. snd (run_pipeline_language e g p notes images lang h) = h @ t \<and>
     ends_as e h t (fst (run_pipeline_language e g p notes images lang h))"
proof -
  have step: "\<exists>t. snd ((if le_code lang \<noteq> py ''en'' then translate_texts e g notes (le_code lang)
                      else io_return notes) h) = h @ t \<and>
      ends_as e h t (fst ((if le_code lang \<noteq> py ''en'' then translate_texts e g notes (le_code lang)
                      else io_return notes) h))" for h
    by (simp add: translate_texts_ends_as io_return_ends_as)
  show ?thesis
    unfolding run_pipeline_language_def Let_def
    by (intro io_bind_ends_as' step narration_loop_ends_as assemble_video_ends_as)
qed

lemma run_pipeline_languages_ends_as:
  "\<exists>t. snd (run_pipeline_languages e g p notes images langs h) = h @ t \<and>
     ends_as e h t (fst (run_pipeline_languages e g p notes images langs h))"
proof (induction langs arbitrary: h)
  case Nil
  show ?case by (simp add: io_return_apply ends_as_Inr)
next
  case (Cons lang langs)
  show ?case
    unfolding run_pipeline_languages.simps
    by (intro io_bind_ends_as' run_pipeline_language_ends_as Cons.IH)
qed

lemma run_pipeline_ends_as:
  "\<exists>t. snd (run_pipeline e g p langs h) = h @ t \<and>
     ends_as e h t (fst (run_pipeline e g p langs h))"
  unfolding run_pipeline_def Let_def
  by (intro io_bind_ends_as' extract_notes_ends_as export_slides_ends_as
      run_pipeline_languages_ends_as)

subsection \<open>The loop over the languages\<close>

lemma run_pipeline_languages_Nil:
  "run_pipeline_languages e g p notes images [] h = (Inr (), h)"
  by (simp add: io_return_apply)

lemma run_pipeline_languages_Cons:
  "run_pipeline_languages e g p notes images (lang # rest) h =
     (case run_pipeline_language e g p notes images lang h of
        (Inl err, h1) \<Rightarrow> (Inl err, h1)
      | (Inr u, h1) \<Rightarrow> run_pipeline_languages e g p notes images rest h1)"
  by (simp add: io_bind_apply split: prod.splits sum.splits)

declare run_pipeline_languages.simps [simp del]

lemma run_pipeline_languages_stops:
  "run_pipeline_languages e g p notes images langs h = (Inl err, h') \<Longrightarrow>
     run_pipeline_languages e g p notes images (langs @ later) h = (Inl err, h')"
proof (induction langs arbitrary: h)
  case Nil
  then show ?case by (simp add: run_pipeline_languages_Nil)
next
  case (Cons lang langs)
  obtain r1 h1 where body: "run_pipeline_language e g p notes images lang h = (r1, h1)"
    by (cases "run_pipeline_language e g p notes images lang h") blast
  show ?case
  proof (cases r1)
    case (Inl err')
    with Cons.prems body show ?thesis
      by (simp add: run_pipeline_languages_Cons)
  next
    case (Inr u)
    with Cons.prems body have "run_pipeline_languages e g p notes images langs h1 = (Inl err, h')"
      by (simp add: run_pipeline_languages_Cons)
    from Cons.IH[OF this] body Inr show ?thesis
      by (simp add: run_pipeline_languages_Cons)
  qed
qed

lemma run_pipeline_apply:
  "run_pipeline e g p langs h =
     (case extract_notes_from_pptx e g p h of
        (Inl err, h1) \<Rightarrow> (Inl err, h1)
      | (Inr slides, h1) \<Rightarrow>
          (case export_slides_as_images e g p (TMP_DIR g) h1 of
             (Inl err, h2) \<Rightarrow> (Inl err, h2)
           | (Inr images, h2) \<Rightarrow>
               run_pipeline_languages e g p (map sd_notes slides) images langs h2))"
  by (simp add: run_pipeline_def Let_def io_bind_apply split: prod.splits sum.splits)

lemma run_pipeline_stops:
  assumes "run_pipeline e g p langs h = (Inl err, h')"
  shows "run_pipeline e g p (langs @ later) h = (Inl err, h')"
proof -
  obtain r1 h1 where x: "extract_notes_from_pptx e g p h = (r1, h1)"
    by (cases "extract_notes_from_pptx e g p h") blast
  show ?thesis
  proof (cases r1)
    case (Inl err')
    with assms x show ?thesis by (simp add: run_pipeline_apply)
  next
    case (Inr slides)
    obtain r2 h2 where y: "export_slides_as_images e g p (TMP_DIR g) h1 = (r2, h2)"
      by (cases "export_slides_as_images e g p (TMP_DIR g) h1") blast
    show ?thesis
    proof (cases r2)
      case (Inl err')
      with assms x y Inr show ?thesis by (simp add: run_pipeline_apply)
    next
      case r2: (Inr images)
      with assms x y Inr
      have "run_pipeline_languages e g p (map sd_notes slides) images langs h2 = (Inl err, h')"
        by (simp add: run_pipeline_apply)
      from run_pipeline_languages_stops[OF this] x y Inr r2 show ?thesis
        by (simp add: run_pipeline_apply)
    qed
  qed
qed

subsection \<open>The export of the images\<close>

lemma export_slides_Inr:
  assumes "export_slides_as_images e g pptx_path out_dir h = (Inr images, h')"
  shows "\<exists>names.
     listdir e (h @ export_calls e pptx_path out_dir)
       (path_join e (path_abspath e out_dir) (py ''slide_image'')) = Inr names \<and>
     images =
       map (path_join e (path_join e (path_abspath e out_dir) (py ''slide_image'')))
         (filter (\<lambda>f. endswith f (py ''.JPG'')) (sort names)) \<and>
     h' = h @ export_calls e pptx_path out_dir @
            [Listdir (path_join e (path_abspath e out_dir) (py ''slide_image''))]"
  using assms
  by (auto simp: export_slides_as_images_def export_calls_def Let_def io_bind_apply
      call_command_apply call_listdir_def io_return_apply
      split: option.splits sum.splits)

subsection \<open>Calls of a kind\<close>

lemma io_bind_calls:
  assumes first: "\<And>h. \<exists>t. snd (m h) = h @ t \<and> list_all P t"
    and second: "\<And>x h. \<exists>t. snd (f x h) = h @ t \<and> list_all P t"
  shows "\<exists>t. snd (io_bind m f h) = h @ t \<and> list_all P t"
proof -
  obtain r1 h1 where m: "m h = (r1, h1)"
    by (cases "m h") blast
  from first[of h] m obtain t1 where t1: "h1 = h @ t1" "list_all P t1"
    by auto
  show ?thesis
  proof (cases r1)
    case (Inl err)
    with m t1 show ?thesis by (simp add: io_bind_apply)
  next
    case (Inr x)
    from second[of x h1] obtain t2 where t2: "snd (f x h1) = h1 @ t2" "list_all P t2"
      by blast
    with m t1 Inr have "snd (io_bind m f h) = h @ (t1 @ t2) \<and> list_all P (t1 @ t2)"
      by (simp add: io_bind_apply)
    then show ?thesis by blast
  qed
qed

lemma io_return_calls: "\<exists>t. snd (io_return x h) = h @ t \<and> list_all P t"
  by (simp add: io_return_apply)

lemma call_command_calls:
  "P c \<Longrightarrow> \<exists>t. snd (call_command e c h) = h @ t \<and> list_all P t"
  by (simp add: call_command_apply split: option.splits)

lemma call_presentation_calls:
  "P (Presentation p) \<Longrightarrow> \<exists>t. snd (call_presentation e p h) = h @ t \<and> list_all P t"
  by (simp add: call_presentation_def)

lemma call_listdir_calls:
  "P (Listdir d) \<Longrightarrow> \<exists>t. snd (call_listdir e d h) = h @ t \<and> list_all P t"
  by (simp add: call_listdir_def)

lemma list_all_prefix: "xs = t @ u \<Longrightarrow> list_all P xs \<Longrightarrow> list_all P t"
  by simp

lemma translate_calls_kind:
  "list_all (\<lambda>c. \<exists>s t x. c = GoogleTranslate s t x) (translate_calls tgt texts)"
  by (auto simp: translate_calls_def list_all_iff)

lemma narration_calls_kind:
  "list_all (\<lambda>c. (\<exists>x l. c = GTTS x l) \<or> (\<exists>p. c = TtsSave p)) (narration_calls e g code i ts)"
  by (induction ts arbitrary: i) (simp_all add: narration_calls_Nil narration_calls_Cons)

lemma list_all_weaken: "list_all P xs \<Longrightarrow> (\<And>x. P x \<Longrightarrow> Q x) \<Longrightarrow> list_all Q xs"
  by (simp add: list_all_iff)

lemma translate_texts_calls_kind:
  "\<exists>t. snd (translate_texts e g texts tgt h) = h @ t \<and>
     list_all (\<lambda>c. \<exists>s t x. c = GoogleTranslate s t x) t"
proof -
  obtain r h' where run: "translate_loop e tgt texts [] h = (r, h')"
    by (cases "translate_loop e tgt texts [] h") blast
  from translate_loop_calls[OF run] obtain t u where
    t: "h' = h @ t" "translate_calls tgt texts = t @ u"
    by blast
  from list_all_prefix[OF t(2) translate_calls_kind] t(1) run show ?thesis
    by (simp add: translate_texts_def)
qed

lemma narration_loop_calls_kind:
  "\<exists>t. snd (narration_loop e g code i ts acc h) = h @ t \<and>
     list_all (\<lambda>c. (\<exists>x l. c = GTTS x l) \<or> (\<exists>p. c = TtsSave p)) t"
proof -
  obtain r h' where run: "narration_loop e g code i ts acc h = (r, h')"
    by (cases "narration_loop e g code i ts acc h") blast
  from narration_loop_calls[OF run] obtain t u where
    t: "h' = h @ t" "narration_calls e g code i ts = t @ u"
    by blast
  from list_all_prefix[OF t(2) narration_calls_kind] t(1) run show ?thesis
    by simp
qed

lemma assemble_loop_calls_kind:
  "\<exists>t. snd (assemble_loop e g ps acc h) = h @ t \<and>
     list_all (\<lambda>c. (\<exists>a. c = AudioFileClip a) \<or> (\<exists>i d. c = ImageClip i d)) t"
proof -
  obtain r h' where run: "assemble_loop e g ps acc h = (r, h')"
    by (cases "assemble_loop e g ps acc h") blast
  show ?thesis
  proof (cases r)
    case (Inl err)
    with run assemble_loop_Inl[of e g ps acc h err h']
    obtain t c where "h' = h @ t @ [c]"
      "list_all (\<lambda>c. (\<exists>a. c = AudioFileClip a) \<or> (\<exists>i d. c = ImageClip i d)) (t @ [c])"
      by blast
    with run show ?thesis by auto
  next
    case (Inr clips)
    with run assemble_loop_Inr[of e g ps acc h clips h']
    obtain cs where "h' = h @ concat (map clip_calls cs)"
      by blast
    with run clips_calls_kind[of cs] show ?thesis by auto
  qed
qed




subsection \<open>The videos written\<close>

lemma written_videos_append:
  "written_videos (t @ u) = written_videos t @ written_videos u"
  by (induction t rule: written_videos.induct) simp_all

lemma written_videos_none:
  "list_all (\<lambda>c. written_videos [c] = []) t \<Longrightarrow> written_videos t = []"
proof (induction t)
  case Nil
  show ?case by simp
next
  case (Cons c t)
  have "written_videos (c # t) = written_videos ([c] @ t)"
    by simp
  also have "\<dots> = written_videos [c] @ written_videos t"
    by (rule written_videos_append)
  finally show ?case using Cons by simp
qed

lemma extract_notes_writes_nothing:
  "\<exists>t. snd (extract_notes_from_pptx e g p h) = h @ t \<and>
     list_all (\<lambda>c. written_videos [c] = []) t"
  unfolding extract_notes_from_pptx_def
  by (intro io_bind_calls call_presentation_calls io_return_calls) simp

lemma export_slides_writes_nothing:
  "\<exists>t. snd (export_slides_as_images e g p d h) = h @ t \<and>
     list_all (\<lambda>c. written_videos [c] = []) t"
  unfolding export_slides_as_images_def Let_def
  by (intro io_bind_calls call_command_calls call_listdir_calls io_return_calls) simp_all

lemma translate_texts_writes_nothing:
  "\<exists>t. snd (translate_texts e g texts tgt h) = h @ t \<and> written_videos t = []"
proof -
  from translate_texts_calls_kind[of e g texts tgt h] obtain t where
    t: "snd (translate_texts e g texts tgt h) = h @ t"
      "list_all (\<lambda>c. \<exists>s t x. c = GoogleTranslate s t x) t"
    by blast
  from t(2) have "list_all (\<lambda>c. written_videos [c] = []) t"
    by (rule list_all_weaken) auto
  with t(1) show ?thesis by (blast intro: written_videos_none)
qed

lemma narration_loop_writes_nothing:
  "\<exists>t. snd (narration_loop e g code i ts acc h) = h @ t \<and> written_videos t = []"
proof -
  from narration_loop_calls_kind[of e g code i ts acc h] obtain t where
    t: "snd (narration_loop e g code i ts acc h) = h @ t"
      "list_all (\<lambda>c. (\<exists>x l. c = GTTS x l) \<or> (\<exists>p. c = TtsSave p)) t"
    by blast
  from t(2) have "list_all (\<lambda>c. written_videos [c] = []) t"
    by (rule list_all_weaken) auto
  with t(1) show ?thesis by (blast intro: written_videos_none)
qed

lemma assemble_loop_writes_nothing:
  "\<exists>t. snd (assemble_loop e g ps acc h) = h @ t \<and> written_videos t = []"
proof -
  from assemble_loop_calls_kind[of e g ps acc h] obtain t where
    t: "snd (assemble_loop e g ps acc h) = h @ t"
      "list_all (\<lambda>c. (\<exists>a. c = AudioFileClip a) \<or> (\<exists>i d. c = ImageClip i d)) t"
    by blast
  from t(2) have "list_all (\<lambda>c. written_videos [c] = []) t"
    by (rule list_all_weaken) auto
  with t(1) show ?thesis by (blast intro: written_videos_none)
qed

text \<open>
  \<open>assemble_video\<close> writes the video it is asked for, unless an exception ends it before
  the call.
\<close>

lemma assemble_video_writes:
  assumes "assemble_video e g imgs auds out h = (r, h')"
  shows "\<exists>t. h' = h @ t \<and>
     (written_videos t = [out] \<or> (written_videos t = [] \<and> (\<exists>err. r = Inl err)))"
proof -
  obtain r1 h1 where loop: "assemble_loop e g (zip imgs auds) [] h = (r1, h1)"
    by (cases "assemble_loop e g (zip imgs auds) [] h") blast
  from assemble_loop_writes_nothing[of e g "zip imgs auds" "[]" h] loop
  obtain t1 where t1: "h1 = h @ t1" "written_videos t1 = []"
    by auto
  show ?thesis
  proof (cases r1)
    case (Inl err)
    with assms loop have "r = Inl err" "h' = h1"
      by (simp_all add: assemble_video_apply)
    with t1 show ?thesis by blast
  next
    case (Inr clips)
    show ?thesis
    proof (cases "command e h1 (ConcatenateVideoclips clips (py ''compose''))")
      case (Some err)
      with assms loop Inr have "r = Inl err"
        "h' = h1 @ [ConcatenateVideoclips clips (py ''compose'')]"
        by (simp_all add: assemble_video_apply)
      with t1 have "h' = h @ (t1 @ [ConcatenateVideoclips clips (py ''compose'')]) \<and>
          written_videos (t1 @ [ConcatenateVideoclips clips (py ''compose'')]) = [] \<and>
          (\<exists>err. r = Inl err)"
        by (simp add: written_videos_append)
      then show ?thesis by blast
    next
      case None
      with assms loop Inr have
        "h' = h1 @ [ConcatenateVideoclips clips (py ''compose''),
                    WriteVideofile out 24 (py ''libx264'') True (py ''libmp3lame'') 4]"
        by (simp add: assemble_video_apply split: option.splits)
      with t1 have
        "h' = h @ (t1 @ [ConcatenateVideoclips clips (py ''compose''),
                         WriteVideofile out 24 (py ''libx264'') True (py ''libmp3lame'') 4]) \<and>
         written_videos (t1 @ [ConcatenateVideoclips clips (py ''compose''),
                         WriteVideofile out 24 (py ''libx264'') True (py ''libmp3lame'') 4]) = [out]"
        by (simp add: written_videos_append)
      then show ?thesis by blast
    qed
  qed
qed

lemma run_pipeline_language_writes:
  assumes "run_pipeline_language e g p notes images lang h = (r, h')"
  shows "\<exists>t. h' = h @ t \<and>
     (written_videos t =
        [path_join e (OUTPUT_DIR g)
           (fst (path_splitext e (path_basename e p)) @ py ''_'' @ le_code lang @ py ''.mp4'')] \<or>
      (written_videos t = [] \<and> (\<exists>err. r = Inl err)))"
proof -
  let ?step = "if le_code lang \<noteq> py ''en'' then translate_texts e g notes (le_code lang)
               else io_return notes"
  obtain r1 h1 where step: "?step h = (r1, h1)"
    by (cases "?step h") blast
  have "\<exists>t. snd (?step h) = h @ t \<and> written_videos t = []"
    using translate_texts_writes_nothing[of e g "notes" "le_code lang" h]
    by (simp add: io_return_apply)
  with step obtain t1 where t1: "h1 = h @ t1" "written_videos t1 = []"
    by auto
  show ?thesis
  proof (cases r1)
    case (Inl err)
    with assms step have "r = Inl err" "h' = h1"
      by (simp_all add: run_pipeline_language_apply)
    with t1 show ?thesis by blast
  next
    case (Inr lang_notes)
    obtain r2 h2 where narr: "narration_loop e g (le_code lang) 0 lang_notes [] h1 = (r2, h2)"
      by (cases "narration_loop e g (le_code lang) 0 lang_notes [] h1") blast
    from narration_loop_writes_nothing[of e g "le_code lang" 0 lang_notes "[]" h1] narr
    obtain t2 where t2: "h2 = h1 @ t2" "written_videos t2 = []"
      by auto
    show ?thesis
    proof (cases r2)
      case (Inl err)
      with assms step Inr narr have "r = Inl err" "h' = h2"
        by (simp_all add: run_pipeline_language_apply)
      with t1 t2 have "h' = h @ (t1 @ t2) \<and> written_videos (t1 @ t2) = [] \<and> (\<exists>err. r = Inl err)"
        by (simp add: written_videos_append)
      then show ?thesis by blast
    next
      case r2: (Inr audio_files)
      with assms step Inr narr have "assemble_video e g images audio_files
          (path_join e (OUTPUT_DIR g)
             (fst (path_splitext e (path_basename e p)) @ py ''_'' @ le_code lang @ py ''.mp4''))
          h2 = (r, h')"
        by (simp add: run_pipeline_language_apply)
      from assemble_video_writes[OF this] obtain t3 where t3: "h' = h2 @ t3"
        "written_videos t3 =
           [path_join e (OUTPUT_DIR g)
              (fst (path_splitext e (path_basename e p)) @ py ''_'' @ le_code lang @ py ''.mp4'')] \<or>
         (written_videos t3 = [] \<and> (\<exists>err. r = Inl err))"
        by blast
      with t1 t2 have "h' = h @ (t1 @ t2 @ t3) \<and>
        (written_videos (t1 @ t2 @ t3) =
           [path_join e (OUTPUT_DIR g)
              (fst (path_splitext e (path_basename e p)) @ py ''_'' @ le_code lang @ py ''.mp4'')] \<or>
         (written_videos (t1 @ t2 @ t3) = [] \<and> (\<exists>err. r = Inl err)))"
        by (auto simp: written_videos_append)
      then show ?thesis by blast
    qed
  qed
qed

lemma run_pipeline_languages_writes:
  "run_pipeline_languages e g p notes images langs h = (r, h') \<Longrightarrow>
     \<exists>t k. h' = h @ t \<and> k \<le> length langs \<and>
       written_videos t =
         map (\<lambda>lang. path_join e (OUTPUT_DIR g)
                (fst (path_splitext e (path_basename e p)) @ py ''_'' @ le_code lang @ py ''.mp4''))
           (take k langs) \<and>
       (r = Inr () \<longrightarrow> k = length langs)"
proof (induction langs arbitrary: h)
  case Nil
  then show ?case by (simp add: run_pipeline_languages_Nil)
next
  case (Cons lang langs)
  let ?out = "\<lambda>lang. path_join e (OUTPUT_DIR g)
                (fst (path_splitext e (path_basename e p)) @ py ''_'' @ le_code lang @ py ''.mp4'')"
  obtain r1 h1 where body: "run_pipeline_language e g p notes images lang h = (r1, h1)"
    by (cases "run_pipeline_language e g p notes images lang h") blast
  from run_pipeline_language_writes[OF body] obtain t1 where t1: "h1 = h @ t1"
    "written_videos t1 = [?out lang] \<or> (written_videos t1 = [] \<and> (\<exists>err. r1 = Inl err))"
    by blast
  show ?case
  proof (cases r1)
    case (Inl err)
    with Cons.prems body have res: "r = Inl err" "h' = h1"
      by (simp_all add: run_pipeline_languages_Cons)
    from t1(2) show ?thesis
    proof
      assume "written_videos t1 = [?out lang]"
      with res t1(1) have "h' = h @ t1 \<and> Suc 0 \<le> length (lang # langs) \<and>
          written_videos t1 = map ?out (take (Suc 0) (lang # langs)) \<and>
          (r = Inr () \<longrightarrow> Suc 0 = length (lang # langs))"
        by simp
      then show ?thesis by blast
    next
      assume "written_videos t1 = [] \<and> (\<exists>err. r1 = Inl err)"
      with res t1(1) have "h' = h @ t1 \<and> 0 \<le> length (lang # langs) \<and>
          written_videos t1 = map ?out (take 0 (lang # langs)) \<and>
          (r = Inr () \<longrightarrow> 0 = length (lang # langs))"
        by simp
      then show ?thesis by blast
    qed
  next
    case (Inr u)
    with t1(2) have w1: "written_videos t1 = [?out lang]"
      by auto
    from Cons.prems body Inr have "run_pipeline_languages e g p notes images langs h1 = (r, h')"
      by (simp add: run_pipeline_languages_Cons)
    from Cons.IH[OF this] obtain t k where t: "h' = h1 @ t" "k \<le> length langs"
      "written_videos t = map ?out (take k langs)" "r = Inr () \<longrightarrow> k = length langs"
      by blast
    with t1(1) w1 have "h' = h @ (t1 @ t) \<and> Suc k \<le> length (lang # langs) \<and>
        written_videos (t1 @ t) = map ?out (take (Suc k) (lang # langs)) \<and>
        (r = Inr () \<longrightarrow> Suc k = length (lang # langs))"
      by (simp add: written_videos_append)
    then show ?thesis by blast
  qed
qed

subsection \<open>Evaluating a run\<close>

lemmas run_defs =
  py_def strip_def isspace_def endswith_def str_of_nat.simps
  io_return_def io_bind_def call_command_def call_presentation_def call_listdir_def
  call_translate_def call_audio_file_clip_def
  extract_notes_from_pptx_def notes_text_of_def export_slides_as_images_def
  translate_texts_def translate_loop.simps synthesize_speech_def narration_loop.simps
  slide_clip_def assemble_loop.simps assemble_video_def
  run_pipeline_language_def run_pipeline_languages.simps run_pipeline_def
  module_globals_def demo_env_def demo_slides_def Let_def

subsection \<open>The globals a run reads\<close>

lemma narration_loop_globals:
  "TMP_DIR g' = TMP_DIR g \<Longrightarrow>
     narration_loop e g' code i ts acc = narration_loop e g code i ts acc"
proof (induction ts arbitrary: i acc)
  case Nil
  show ?case by (simp add: narration_loop.simps)
next
  case (Cons tx ts)
  then show ?case
    by (simp add: narration_loop.simps synthesize_speech_def)
qed

lemma slide_clip_globals:
  "POST_AUDIO_PADDING g' = POST_AUDIO_PADDING g \<Longrightarrow> slide_clip e g' img aud = slide_clip e g img aud"
  by (simp add: slide_clip_def Let_def split: option.splits)

lemma assemble_loop_globals:
  "POST_AUDIO_PADDING g' = POST_AUDIO_PADDING g \<Longrightarrow>
     assemble_loop e g' ps clips = assemble_loop e g ps clips"
proof (induction ps arbitrary: clips)
  case Nil
  show ?case by (simp add: assemble_loop.simps)
next
  case (Cons p ps)
  obtain img aud where p: "p = (img, aud)"
    by (cases p)
  from Cons show ?case
    by (simp add: p assemble_loop.simps slide_clip_globals[of g' g])
qed

lemma assemble_video_globals:
  "POST_AUDIO_PADDING g' = POST_AUDIO_PADDING g \<Longrightarrow>
     assemble_video e g' imgs auds out = assemble_video e g imgs auds out"
  by (simp add: assemble_video_def assemble_loop_globals[of g' g])

lemma run_pipeline_language_globals:
  assumes "TMP_DIR g' = TMP_DIR g" and "OUTPUT_DIR g' = OUTPUT_DIR g"
    and "POST_AUDIO_PADDING g' = POST_AUDIO_PADDING g"
  shows "run_pipeline_language e g' p notes images lang =
     run_pipeline_language e g p notes images lang"
  using assms
  by (simp add: run_pipeline_language_def translate_texts_def narration_loop_globals[of g' g]
      assemble_video_globals[of g' g] Let_def cong: if_cong)

lemma run_pipeline_languages_globals:
  assumes "TMP_DIR g' = TMP_DIR g" and "OUTPUT_DIR g' = OUTPUT_DIR g"
    and "POST_AUDIO_PADDING g' = POST_AUDIO_PADDING g"
  shows "run_pipeline_languages e g' p notes images langs =
     run_pipeline_languages e g p notes images langs"
  using assms
  by (induction langs)
    (simp_all add: run_pipeline_languages.simps run_pipeline_language_globals[of g' g])

lemma run_pipeline_globals:
  assumes "TMP_DIR g' = TMP_DIR g" and "OUTPUT_DIR g' = OUTPUT_DIR g"
    and "POST_AUDIO_PADDING g' = POST_AUDIO_PADDING g"
  shows "run_pipeline e g' p langs = run_pipeline e g p langs"
  using assms
  by (simp add: run_pipeline_def extract_notes_from_pptx_def export_slides_as_images_def
      run_pipeline_languages_globals[of g' g])

section \<open>Translation and narration\<close>

text \<open>
  Claim C2, as the code has it. Whatever \<open>translate_texts\<close> does is one of two things.
  Either it returns a list of the length of its input, in the order of its input,
  where the position of a text that \<open>strip()\<close> leaves empty (an empty text or one of
  whitespace only) holds the empty string and every other position holds the answer of
  the translation service to one call with source language \<open>auto\<close>; the calls are
  exactly those for the other texts, in their order. Or one of these calls raised, and
  the exception ends \<open>translate_texts\<close> at that call.
\<close>

theorem translate_texts_spec:
  assumes "translate_texts e g texts target_language h = (r, h')"
  shows "case r of
      Inr results \<Rightarrow>
        length results = length texts \<and>
        h' = h @ translate_calls target_language texts \<and>
        (\<forall>i<length texts.
           if strip (texts ! i) = [] then results ! i = py ''''
           else translate e (h @ translate_calls target_language (take i texts))
                  (py ''auto'') target_language (texts ! i) = Inr (results ! i))
    | Inl err \<Rightarrow>
        (\<exists>i<length texts. strip (texts ! i) \<noteq> [] \<and>
           translate e (h @ translate_calls target_language (take i texts))
             (py ''auto'') target_language (texts ! i) = Inl err \<and>
           h' = h @ translate_calls target_language (take (Suc i) texts))"
proof (cases r)
  case (Inl err)
  with assms have "translate_loop e target_language texts [] h = (Inl err, h')"
    by (simp add: translate_texts_def)
  from translate_loop_Inl[OF this] Inl show ?thesis by simp
next
  case (Inr results)
  with assms have "translate_loop e target_language texts [] h = (Inr results, h')"
    by (simp add: translate_texts_def)
  from translate_loop_Inr[OF this] Inr show ?thesis by (auto simp: py_def)
qed

text \<open>
  The example of the specification, with a note of one space added: the notes
  \<open>Hello\<close>, the empty string, a space and \<open>World\<close>, translated to French.
\<close>

theorem translate_texts_spec_witness:
  "translate_texts demo_env (module_globals demo_env) [py ''Hello'', py '''', py '' '', py ''World'']
      (py ''fr'') [] =
     (Inr [py ''fr:Hello'', py '''', py '''', py ''fr:World''],
      [GoogleTranslate (py ''auto'') (py ''fr'') (py ''Hello''),
       GoogleTranslate (py ''auto'') (py ''fr'') (py ''World'')]) \<and>
   length [py ''fr:Hello'', py '''', py '''', py ''fr:World''] =
     length [py ''Hello'', py '''', py '' '', py ''World''] \<and>
   [GoogleTranslate (py ''auto'') (py ''fr'') (py ''Hello''),
    GoogleTranslate (py ''auto'') (py ''fr'') (py ''World'')] =
     [] @ translate_calls (py ''fr'') [py ''Hello'', py '''', py '' '', py ''World'']"
proof -
  have run: "translate_texts demo_env (module_globals demo_env)
      [py ''Hello'', py '''', py '' '', py ''World''] (py ''fr'') [] =
     (Inr [py ''fr:Hello'', py '''', py '''', py ''fr:World''],
      [GoogleTranslate (py ''auto'') (py ''fr'') (py ''Hello''),
       GoogleTranslate (py ''auto'') (py ''fr'') (py ''World'')])"
    by (simp add: translate_texts_def translate_loop.simps py_def strip_def isspace_def
        io_return_def io_bind_def call_translate_def demo_env_def)
  from translate_texts_spec[OF run] have
    "length [py ''fr:Hello'', py '''', py '''', py ''fr:World''] =
       length [py ''Hello'', py '''', py '' '', py ''World''] \<and>
     [GoogleTranslate (py ''auto'') (py ''fr'') (py ''Hello''),
      GoogleTranslate (py ''auto'') (py ''fr'') (py ''World'')] =
       [] @ translate_calls (py ''fr'') [py ''Hello'', py '''', py '' '', py ''World'']"
    by simp
  with run show ?thesis by blast
qed

text \<open>
  The claim as it is written fails for a text of one space: the text is not empty, the
  translation service would answer, and yet \<open>translate_texts\<close> makes no call and
  returns the empty string.
\<close>

theorem translate_texts_counterexample:
  "py '' '' \<noteq> py '''' \<and>
   translate demo_env [] (py ''auto'') (py ''fr'') (py '' '') = Inr (py ''fr: '') \<and>
   translate_texts demo_env (module_globals demo_env) [py '' ''] (py ''fr'') [] = (Inr [py ''''], [])"
  by (simp add: translate_texts_def translate_loop.simps py_def strip_def isspace_def
      io_return_def io_bind_def call_translate_def demo_env_def)

text \<open>
  Claim C10. A note that is not empty and consists of whitespace only is treated as an
  empty one. \<open>translate_texts\<close> never sends it to the translation service and, when it
  returns, has the empty string at the position of the note, which is not the note.
  The narration loop of \<open>run_pipeline\<close> never makes a synthesis call for it and, when it
  returns, has \<open>None\<close> at its position.
\<close>

theorem whitespace_only_note:
  assumes "i < length texts" and "texts ! i \<noteq> []" and "list_all isspace (texts ! i)"
  shows "(translate_texts e g texts target_language h = (r, h') \<longrightarrow>
            (\<forall>src tgt. GoogleTranslate src tgt (texts ! i) \<notin> set (drop (length h) h')) \<and>
            (\<forall>results. r = Inr results \<longrightarrow> results ! i = py '''' \<and> results ! i \<noteq> texts ! i)) \<and>
         (narration_loop e g code 0 texts [] h = (r2, h2) \<longrightarrow>
            (\<forall>lang_code. GTTS (texts ! i) lang_code \<notin> set (drop (length h) h2)) \<and>
            (\<forall>audio_files. r2 = Inr audio_files \<longrightarrow>
               length audio_files = length texts \<and> audio_files ! i = None))"
proof -
  from assms(3) have blank: "strip (texts ! i) = []"
    by (simp add: strip_empty_iff)
  have translation: "(\<forall>src tgt. GoogleTranslate src tgt (texts ! i) \<notin> set (drop (length h) h')) \<and>
      (\<forall>results. r = Inr results \<longrightarrow> results ! i = py '''' \<and> results ! i \<noteq> texts ! i)"
    if run: "translate_texts e g texts target_language h = (r, h')"
  proof -
    from run have "translate_loop e target_language texts [] h = (r, h')"
      by (simp add: translate_texts_def)
    from translate_loop_calls[OF this] obtain t u
      where t: "h' = h @ t" "translate_calls target_language texts = t @ u"
      by blast
    have "GoogleTranslate src tgt (texts ! i) \<notin> set t" for src tgt
    proof
      assume "GoogleTranslate src tgt (texts ! i) \<in> set t"
      with t(2) have "GoogleTranslate src tgt (texts ! i) \<in> set (translate_calls target_language texts)"
        by simp
      from translate_calls_member[OF this] blank show False by simp
    qed
    moreover have "results ! i = py '''' \<and> results ! i \<noteq> texts ! i" if "r = Inr results" for results
    proof -
      from run that have "translate_loop e target_language texts [] h = (Inr results, h')"
        by (simp add: translate_texts_def)
      from translate_loop_Inr[OF this] assms(1) blank have "results ! i = []"
        by auto
      with assms(2) show ?thesis by (simp add: py_Nil)
    qed
    ultimately show ?thesis using t(1) by auto
  qed
  have narration: "(\<forall>lang_code. GTTS (texts ! i) lang_code \<notin> set (drop (length h) h2)) \<and>
      (\<forall>audio_files. r2 = Inr audio_files \<longrightarrow>
         length audio_files = length texts \<and> audio_files ! i = None)"
    if run: "narration_loop e g code 0 texts [] h = (r2, h2)"
  proof -
    from narration_loop_calls[OF run] obtain t u
      where t: "h2 = h @ t" "narration_calls e g code 0 texts = t @ u"
      by blast
    have "GTTS (texts ! i) lang_code \<notin> set t" for lang_code
    proof
      assume "GTTS (texts ! i) lang_code \<in> set t"
      with t(2) have "GTTS (texts ! i) lang_code \<in> set (narration_calls e g code 0 texts)"
        by simp
      from narration_calls_member[OF this] blank show False by simp
    qed
    moreover have "length audio_files = length texts \<and> audio_files ! i = None"
      if "r2 = Inr audio_files" for audio_files
    proof -
      from run that have "narration_loop e g code 0 texts [] h = (Inr audio_files, h2)"
        by simp
      from narration_loop_Inr[OF this]
      have "audio_files =
          map (\<lambda>(k, tx). if strip tx \<noteq> [] then Some (slide_audio_path e g code k) else None)
            (enumerate 0 texts)"
        by simp
      with assms(1) blank show ?thesis
        by (simp add: nth_enumerate_eq)
    qed
    ultimately show ?thesis using t(1) by auto
  qed
  from translation narration show ?thesis by blast
qed

text \<open>A note of two spaces between two notes with text, translated and narrated.\<close>

theorem whitespace_only_note_witness:
  "(1::nat) < length [py ''Hello'', py ''  '', py ''World''] \<and>
   [py ''Hello'', py ''  '', py ''World''] ! 1 \<noteq> [] \<and>
   list_all isspace ([py ''Hello'', py ''  '', py ''World''] ! 1) \<and>
   translate_texts demo_env (module_globals demo_env) [py ''Hello'', py ''  '', py ''World'']
      (py ''fr'') [] =
     (Inr [py ''fr:Hello'', py '''', py ''fr:World''],
      [GoogleTranslate (py ''auto'') (py ''fr'') (py ''Hello''),
       GoogleTranslate (py ''auto'') (py ''fr'') (py ''World'')]) \<and>
   [py ''fr:Hello'', py '''', py ''fr:World''] ! 1 = py '''' \<and>
   narration_loop demo_env (module_globals demo_env) (py ''en'') 0
      [py ''Hello'', py ''  '', py ''World''] [] [] =
     (Inr [Some (py ''/app/tmp_assets/slide_1_en.mp3''), None,
           Some (py ''/app/tmp_assets/slide_3_en.mp3'')],
      [GTTS (py ''Hello'') (py ''en''), TtsSave (py ''/app/tmp_assets/slide_1_en.mp3''),
       GTTS (py ''World'') (py ''en''), TtsSave (py ''/app/tmp_assets/slide_3_en.mp3'')]) \<and>
   [Some (py ''/app/tmp_assets/slide_1_en.mp3''), None,
    Some (py ''/app/tmp_assets/slide_3_en.mp3'')] ! 1 = None"
proof -
  have a1: "(1::nat) < length [py ''Hello'', py ''  '', py ''World'']"
    by simp
  have a2: "[py ''Hello'', py ''  '', py ''World''] ! 1 \<noteq> []"
    by (simp add: py_def)
  have a3: "list_all isspace ([py ''Hello'', py ''  '', py ''World''] ! 1)"
    by (simp add: py_def isspace_def)
  have run1: "translate_texts demo_env (module_globals demo_env)
      [py ''Hello'', py ''  '', py ''World''] (py ''fr'') [] =
     (Inr [py ''fr:Hello'', py '''', py ''fr:World''],
      [GoogleTranslate (py ''auto'') (py ''fr'') (py ''Hello''),
       GoogleTranslate (py ''auto'') (py ''fr'') (py ''World'')])"
    by (simp add: translate_texts_def translate_loop.simps py_def strip_def isspace_def
        io_return_def io_bind_def call_translate_def demo_env_def)
  have run2: "narration_loop demo_env (module_globals demo_env) (py ''en'') 0
      [py ''Hello'', py ''  '', py ''World''] [] [] =
     (Inr [Some (py ''/app/tmp_assets/slide_1_en.mp3''), None,
           Some (py ''/app/tmp_assets/slide_3_en.mp3'')],
      [GTTS (py ''Hello'') (py ''en''), TtsSave (py ''/app/tmp_assets/slide_1_en.mp3''),
       GTTS (py ''World'') (py ''en''), TtsSave (py ''/app/tmp_assets/slide_3_en.mp3'')])"
    by (simp add: narration_loop.simps synthesize_speech_def py_def strip_def isspace_def
        io_return_def io_bind_def call_command_def demo_env_def module_globals_def Let_def
        str_of_nat.simps)
  from whitespace_only_note[OF a1 a2 a3, of demo_env "module_globals demo_env" "py ''fr''" "[]"
      "Inr [py ''fr:Hello'', py '''', py ''fr:World'']"
      "[GoogleTranslate (py ''auto'') (py ''fr'') (py ''Hello''),
        GoogleTranslate (py ''auto'') (py ''fr'') (py ''World'')]"
      "py ''en''"
      "Inr [Some (py ''/app/tmp_assets/slide_1_en.mp3''), None,
            Some (py ''/app/tmp_assets/slide_3_en.mp3'')]"
      "[GTTS (py ''Hello'') (py ''en''), TtsSave (py ''/app/tmp_assets/slide_1_en.mp3''),
        GTTS (py ''World'') (py ''en''), TtsSave (py ''/app/tmp_assets/slide_3_en.mp3'')]"]
    run1 run2
  have "[py ''fr:Hello'', py '''', py ''fr:World''] ! 1 = py '''' \<and>
        [Some (py ''/app/tmp_assets/slide_1_en.mp3''), None,
         Some (py ''/app/tmp_assets/slide_3_en.mp3'')] ! 1 = None"
    by blast
  with a1 a2 a3 run1 run2 show ?thesis by blast
qed

text \<open>
  Claim C1, as the code has it. Let \<open>lang_notes\<close> be the notes of a language once the
  translation step of \<open>run_pipeline\<close> has returned: the extracted notes for \<open>en\<close>, their
  translations otherwise; there is one of them for each extracted note. Then one of two
  things happens. Either every synthesis call is answered, and \<open>run_pipeline\<close> calls
  \<open>assemble_video\<close> with an audio list that has one entry for each note, in the order of
  the notes: the path of the audio file of the slide where \<open>strip()\<close> leaves the note
  non-empty, \<open>None\<close> where the note is empty or of whitespace only. Or a synthesis call
  raises and ends the run. In both cases the synthesis calls made are calls for notes
  that \<open>strip()\<close> leaves non-empty, two for each such note, in the order of the notes.
\<close>

theorem run_pipeline_audio_files:
  assumes "(if le_code lang \<noteq> py ''en'' then translate_texts e g notes (le_code lang)
            else io_return notes) h = (Inr lang_notes, h1)"
  shows "length lang_notes = length notes \<and>
    ((\<exists>audio_files.
        length audio_files = length lang_notes \<and>
        (\<forall>i<length lang_notes.
           audio_files ! i =
             (if strip (lang_notes ! i) \<noteq> [] then Some (slide_audio_path e g (le_code lang) i)
              else None)) \<and>
        all_answered e h1 (narration_calls e g (le_code lang) 0 lang_notes) \<and>
        run_pipeline_language e g pptx_path notes images lang h =
          assemble_video e g images audio_files
            (path_join e (OUTPUT_DIR g)
               (fst (path_splitext e (path_basename e pptx_path)) @ py ''_'' @ le_code lang @
                py ''.mp4''))
            (h1 @ narration_calls e g (le_code lang) 0 lang_notes)) \<or>
     (\<exists>err t c u.
        narration_calls e g (le_code lang) 0 lang_notes = t @ c # u \<and>
        all_answered e h1 t \<and> raises e (h1 @ t) c = Some err \<and>
        run_pipeline_language e g pptx_path notes images lang h = (Inl err, h1 @ t @ [c])))"
proof -
  have len: "length lang_notes = length notes"
  proof (cases "le_code lang \<noteq> py ''en''")
    case True
    with assms show ?thesis by (simp add: translate_texts_length)
  next
    case False
    with assms show ?thesis by (simp add: io_return_apply)
  qed
  obtain r h2 where run: "narration_loop e g (le_code lang) 0 lang_notes [] h1 = (r, h2)"
    by (cases "narration_loop e g (le_code lang) 0 lang_notes [] h1") blast
  show ?thesis
  proof (cases r)
    case (Inl err)
    with run have narr: "narration_loop e g (le_code lang) 0 lang_notes [] h1 = (Inl err, h2)"
      by simp
    from narration_loop_Inl[OF narr] obtain t c u where
      t: "narration_calls e g (le_code lang) 0 lang_notes = t @ c # u" "all_answered e h1 t"
        "raises e (h1 @ t) c = Some err" "h2 = h1 @ t @ [c]"
      by blast
    have "run_pipeline_language e g pptx_path notes images lang h = (Inl err, h1 @ t @ [c])"
      using assms narr t(4) by (simp add: run_pipeline_language_apply)
    with t len show ?thesis by blast
  next
    case (Inr audio_files)
    with run have narr: "narration_loop e g (le_code lang) 0 lang_notes [] h1 = (Inr audio_files, h2)"
      by simp
    from narration_loop_Inr[OF narr] have
      a: "audio_files =
            map (\<lambda>(k, tx). if strip tx \<noteq> [] then Some (slide_audio_path e g (le_code lang) k) else None)
              (enumerate 0 lang_notes)"
      and h2: "h2 = h1 @ narration_calls e g (le_code lang) 0 lang_notes"
      and ok: "all_answered e h1 (narration_calls e g (le_code lang) 0 lang_notes)"
      by simp_all
    from a have "length audio_files = length lang_notes"
      by simp
    moreover from a have "\<forall>i<length lang_notes.
           audio_files ! i =
             (if strip (lang_notes ! i) \<noteq> [] then Some (slide_audio_path e g (le_code lang) i)
              else None)"
      by (simp add: nth_enumerate_eq)
    moreover have "run_pipeline_language e g pptx_path notes images lang h =
        assemble_video e g images audio_files
          (path_join e (OUTPUT_DIR g)
             (fst (path_splitext e (path_basename e pptx_path)) @ py ''_'' @ le_code lang @
              py ''.mp4''))
          (h1 @ narration_calls e g (le_code lang) 0 lang_notes)"
      using assms narr h2 by (simp add: run_pipeline_language_apply)
    ultimately show ?thesis using ok len by blast
  qed
qed

text \<open>The notes \<open>Hello\<close>, empty and \<open>World\<close>, translated to French and narrated.\<close>

theorem run_pipeline_audio_files_witness:
  "(if le_code \<lparr>le_code = py ''fr'', le_label = py ''French''\<rparr> \<noteq> py ''en''
    then translate_texts demo_env (module_globals demo_env) [py ''Hello'', py '''', py ''World'']
           (le_code \<lparr>le_code = py ''fr'', le_label = py ''French''\<rparr>)
    else io_return [py ''Hello'', py '''', py ''World'']) [] =
     (Inr [py ''fr:Hello'', py '''', py ''fr:World''],
      [GoogleTranslate (py ''auto'') (py ''fr'') (py ''Hello''),
       GoogleTranslate (py ''auto'') (py ''fr'') (py ''World'')]) \<and>
   length [py ''fr:Hello'', py '''', py ''fr:World''] = length [py ''Hello'', py '''', py ''World''] \<and>
   narration_loop demo_env (module_globals demo_env) (py ''fr'') 0
      [py ''fr:Hello'', py '''', py ''fr:World''] []
      [GoogleTranslate (py ''auto'') (py ''fr'') (py ''Hello''),
       GoogleTranslate (py ''auto'') (py ''fr'') (py ''World'')] =
     (Inr [Some (py ''/app/tmp_assets/slide_1_fr.mp3''), None,
           Some (py ''/app/tmp_assets/slide_3_fr.mp3'')],
      [GoogleTranslate (py ''auto'') (py ''fr'') (py ''Hello''),
       GoogleTranslate (py ''auto'') (py ''fr'') (py ''World''),
       GTTS (py ''fr:Hello'') (py ''fr''), TtsSave (py ''/app/tmp_assets/slide_1_fr.mp3''),
       GTTS (py ''fr:World'') (py ''fr''), TtsSave (py ''/app/tmp_assets/slide_3_fr.mp3'')])"
proof -
  have step: "(if le_code \<lparr>le_code = py ''fr'', le_label = py ''French''\<rparr> \<noteq> py ''en''
    then translate_texts demo_env (module_globals demo_env) [py ''Hello'', py '''', py ''World'']
           (le_code \<lparr>le_code = py ''fr'', le_label = py ''French''\<rparr>)
    else io_return [py ''Hello'', py '''', py ''World'']) [] =
     (Inr [py ''fr:Hello'', py '''', py ''fr:World''],
      [GoogleTranslate (py ''auto'') (py ''fr'') (py ''Hello''),
       GoogleTranslate (py ''auto'') (py ''fr'') (py ''World'')])"
    by (simp add: translate_texts_def translate_loop.simps py_def strip_def isspace_def
        io_return_def io_bind_def call_translate_def demo_env_def)
  have narr: "narration_loop demo_env (module_globals demo_env) (py ''fr'') 0
      [py ''fr:Hello'', py '''', py ''fr:World''] []
      [GoogleTranslate (py ''auto'') (py ''fr'') (py ''Hello''),
       GoogleTranslate (py ''auto'') (py ''fr'') (py ''World'')] =
     (Inr [Some (py ''/app/tmp_assets/slide_1_fr.mp3''), None,
           Some (py ''/app/tmp_assets/slide_3_fr.mp3'')],
      [GoogleTranslate (py ''auto'') (py ''fr'') (py ''Hello''),
       GoogleTranslate (py ''auto'') (py ''fr'') (py ''World''),
       GTTS (py ''fr:Hello'') (py ''fr''), TtsSave (py ''/app/tmp_assets/slide_1_fr.mp3''),
       GTTS (py ''fr:World'') (py ''fr''), TtsSave (py ''/app/tmp_assets/slide_3_fr.mp3'')])"
    by (simp add: narration_loop.simps synthesize_speech_def py_def strip_def isspace_def
        io_return_def io_bind_def call_command_def demo_env_def module_globals_def Let_def
        str_of_nat.simps)
  from run_pipeline_audio_files[OF step]
  have "length [py ''fr:Hello'', py '''', py ''fr:World''] = length [py ''Hello'', py '''', py ''World'']"
    by blast
  with step narr show ?thesis by blast
qed

text \<open>
  The claim as it is written fails when the translation of a note is a single space:
  the translated note is not empty, and yet the run for French makes no synthesis call
  and builds the clip of the slide without audio.
\<close>

theorem run_pipeline_audio_files_counterexample:
  "py '' '' \<noteq> py '''' \<and>
   translate_texts blank_env (module_globals blank_env) [py ''Hello''] (py ''fr'') [] =
     (Inr [py '' ''], [GoogleTranslate (py ''auto'') (py ''fr'') (py ''Hello'')]) \<and>
   narration_loop blank_env (module_globals blank_env) (py ''fr'') 0 [py '' ''] []
      [GoogleTranslate (py ''auto'') (py ''fr'') (py ''Hello'')] =
     (Inr [None], [GoogleTranslate (py ''auto'') (py ''fr'') (py ''Hello'')]) \<and>
   run_pipeline_language blank_env (module_globals blank_env) (py ''/decks/talk.pptx'')
      [py ''Hello''] [py ''/app/tmp_assets/slide_image/Slide1.JPG'']
      \<lparr>le_code = py ''fr'', le_label = py ''French''\<rparr> [] =
     (Inr (),
      [GoogleTranslate (py ''auto'') (py ''fr'') (py ''Hello''),
       ImageClip (py ''/app/tmp_assets/slide_image/Slide1.JPG'') 4,
       ConcatenateVideoclips
         [\<lparr>clip_image = py ''/app/tmp_assets/slide_image/Slide1.JPG'', clip_duration = 4,
           clip_audio = None\<rparr>] (py ''compose''),
       WriteVideofile (py ''/app/output_videos/talk_fr.mp4'') 24 (py ''libx264'') True
         (py ''libmp3lame'') 4])"
  by (simp add: run_defs blank_env_def)

section \<open>Video assembly\<close>

text \<open>
  Claim C3. The padding constant of the module is 1.5. A run of \<open>assemble_video\<close> that
  returns has handed a list of clips to \<open>concatenate_videoclips\<close>, and whenever a run
  hands a list of clips over, the list has one clip for each pair of \<open>zip(slide_images,
  audio_files)\<close>, and the clip at position \<open>i\<close> shows the image at position \<open>i\<close>; when
  the audio entry is a path (\<open>if aud:\<close> holds), the clip carries this audio and its
  duration is the duration the audio library reported for the file, plus
  \<open>POST_AUDIO_PADDING\<close>; when the audio entry is absent, the clip has no audio and its
  duration is 4.0.
\<close>

theorem assemble_video_durations:
  assumes run: "assemble_video e g slide_images audio_files out_path h = (r, h')"
  shows "POST_AUDIO_PADDING (module_globals e) = 1.5 \<and>
    (r = Inr () \<longrightarrow>
       (\<exists>clips. ConcatenateVideoclips clips (py ''compose'') \<in> set (drop (length h) h'))) \<and>
    (\<forall>clips meth. ConcatenateVideoclips clips meth \<in> set (drop (length h) h') \<longrightarrow>
       length clips = min (length slide_images) (length audio_files) \<and>
       (\<forall>i<length clips.
          clip_image (clips ! i) = slide_images ! i \<and>
          (case audio_files ! i of
             Some a \<Rightarrow>
               if a \<noteq> [] then
                 clip_audio (clips ! i) = Some a \<and>
                 (\<exists>d. audio_duration e (h @ concat (map clip_calls (take i clips))) a = Inr d \<and>
                      clip_duration (clips ! i) = d + POST_AUDIO_PADDING g)
               else clip_audio (clips ! i) = None \<and> clip_duration (clips ! i) = 4.0
           | None \<Rightarrow> clip_audio (clips ! i) = None \<and> clip_duration (clips ! i) = 4.0)))"
proof -
  have padding: "POST_AUDIO_PADDING (module_globals e) = 1.5"
    by (simp add: module_globals_def Let_def)
  obtain r1 h1 where loop: "assemble_loop e g (zip slide_images audio_files) [] h = (r1, h1)"
    by (cases "assemble_loop e g (zip slide_images audio_files) [] h") blast
  show ?thesis
  proof (cases r1)
    case (Inl err)
    with loop have l: "assemble_loop e g (zip slide_images audio_files) [] h = (Inl err, h1)"
      by simp
    with run have res: "r = Inl err" "h' = h1"
      by (simp_all add: assemble_video_apply)
    from assemble_loop_Inl[OF l] obtain t c where t: "h1 = h @ t @ [c]"
      "list_all (\<lambda>c. (\<exists>a. c = AudioFileClip a) \<or> (\<exists>i d. c = ImageClip i d)) (t @ [c])"
      by blast
    have "ConcatenateVideoclips clips meth \<notin> set (drop (length h) h')" for clips meth
      using t res by (auto simp: list_all_iff)
    with res padding show ?thesis by simp
  next
    case (Inr cs0)
    with loop have l: "assemble_loop e g (zip slide_images audio_files) [] h = (Inr cs0, h1)"
      by simp
    from assemble_loop_Inr[OF l] obtain cs where cs: "cs0 = cs"
      "length cs = length (zip slide_images audio_files)"
      "h1 = h @ concat (map clip_calls cs)"
      "\<forall>i<length (zip slide_images audio_files).
          slide_clip e g (fst (zip slide_images audio_files ! i)) (snd (zip slide_images audio_files ! i))
            (h @ concat (map clip_calls (take i cs))) =
            (Inr (cs ! i), h @ concat (map clip_calls (take (Suc i) cs)))"
      by auto
    have no_concat: "ConcatenateVideoclips clips meth \<notin> set (concat (map clip_calls cs))"
      for clips meth
      using clips_calls_kind[of cs] by (auto simp: list_all_iff)
    from run l cs(1) have
      tail: "\<exists>u. h' = h1 @ ConcatenateVideoclips cs (py ''compose'') # u \<and>
          (u = [] \<or> u = [WriteVideofile out_path 24 (py ''libx264'') True (py ''libmp3lame'') 4])"
      by (auto simp: assemble_video_apply split: option.splits)
    then obtain u where u: "h' = h1 @ ConcatenateVideoclips cs (py ''compose'') # u"
      "u = [] \<or> u = [WriteVideofile out_path 24 (py ''libx264'') True (py ''libmp3lame'') 4]"
      by blast
    have new: "drop (length h) h' =
        concat (map clip_calls cs) @ ConcatenateVideoclips cs (py ''compose'') # u"
      using u(1) cs(3) by simp
    have ex: "\<exists>clips. ConcatenateVideoclips clips (py ''compose'') \<in> set (drop (length h) h')"
      unfolding new by auto
    have props: "length clips = min (length slide_images) (length audio_files) \<and>
       (\<forall>i<length clips.
          clip_image (clips ! i) = slide_images ! i \<and>
          (case audio_files ! i of
             Some a \<Rightarrow>
               if a \<noteq> [] then
                 clip_audio (clips ! i) = Some a \<and>
                 (\<exists>d. audio_duration e (h @ concat (map clip_calls (take i clips))) a = Inr d \<and>
                      clip_duration (clips ! i) = d + POST_AUDIO_PADDING g)
               else clip_audio (clips ! i) = None \<and> clip_duration (clips ! i) = 4.0
           | None \<Rightarrow> clip_audio (clips ! i) = None \<and> clip_duration (clips ! i) = 4.0))"
      if mem: "ConcatenateVideoclips clips meth \<in> set (drop (length h) h')" for clips meth
    proof -
      from mem no_concat u(2) have eq: "clips = cs"
        unfolding new by auto
      have len: "length cs = min (length slide_images) (length audio_files)"
        using cs(2) by simp
      have body: "clip_image (cs ! i) = slide_images ! i \<and>
          (case audio_files ! i of
             Some a \<Rightarrow>
               if a \<noteq> [] then
                 clip_audio (cs ! i) = Some a \<and>
                 (\<exists>d. audio_duration e (h @ concat (map clip_calls (take i cs))) a = Inr d \<and>
                      clip_duration (cs ! i) = d + POST_AUDIO_PADDING g)
               else clip_audio (cs ! i) = None \<and> clip_duration (cs ! i) = 4.0
           | None \<Rightarrow> clip_audio (cs ! i) = None \<and> clip_duration (cs ! i) = 4.0)"
        if i: "i < length cs" for i
      proof -
        from i len have i': "i < length slide_images" "i < length audio_files"
          by simp_all
        with cs(4) have "slide_clip e g (slide_images ! i) (audio_files ! i)
            (h @ concat (map clip_calls (take i cs))) =
            (Inr (cs ! i), h @ concat (map clip_calls (take (Suc i) cs)))"
          by simp
        from slide_clip_Inr[OF this] show ?thesis
          by (auto split: option.splits)
      qed
      show ?thesis unfolding eq using len body by blast
    qed
    from padding ex props show ?thesis by blast
  qed
qed

text \<open>Three images, of which the first and the third have an audio file of 2 seconds.\<close>

theorem assemble_video_durations_witness:
  "assemble_video demo_env (module_globals demo_env)
      [py ''Slide1.JPG'', py ''Slide2.JPG'', py ''Slide3.JPG'']
      [Some (py ''slide_1_en.mp3''), None, Some (py ''slide_3_en.mp3'')] (py ''talk_en.mp4'') [] =
     (Inr (),
      [AudioFileClip (py ''slide_1_en.mp3''), ImageClip (py ''Slide1.JPG'') 3.5,
       ImageClip (py ''Slide2.JPG'') 4,
       AudioFileClip (py ''slide_3_en.mp3''), ImageClip (py ''Slide3.JPG'') 3.5,
       ConcatenateVideoclips
         [\<lparr>clip_image = py ''Slide1.JPG'', clip_duration = 3.5,
           clip_audio = Some (py ''slide_1_en.mp3'')\<rparr>,
          \<lparr>clip_image = py ''Slide2.JPG'', clip_duration = 4, clip_audio = None\<rparr>,
          \<lparr>clip_image = py ''Slide3.JPG'', clip_duration = 3.5,
           clip_audio = Some (py ''slide_3_en.mp3'')\<rparr>] (py ''compose''),
       WriteVideofile (py ''talk_en.mp4'') 24 (py ''libx264'') True (py ''libmp3lame'') 4]) \<and>
   POST_AUDIO_PADDING (module_globals demo_env) = 1.5"
proof -
  have run: "assemble_video demo_env (module_globals demo_env)
      [py ''Slide1.JPG'', py ''Slide2.JPG'', py ''Slide3.JPG'']
      [Some (py ''slide_1_en.mp3''), None, Some (py ''slide_3_en.mp3'')] (py ''talk_en.mp4'') [] =
     (Inr (),
      [AudioFileClip (py ''slide_1_en.mp3''), ImageClip (py ''Slide1.JPG'') 3.5,
       ImageClip (py ''Slide2.JPG'') 4,
       AudioFileClip (py ''slide_3_en.mp3''), ImageClip (py ''Slide3.JPG'') 3.5,
       ConcatenateVideoclips
         [\<lparr>clip_image = py ''Slide1.JPG'', clip_duration = 3.5,
           clip_audio = Some (py ''slide_1_en.mp3'')\<rparr>,
          \<lparr>clip_image = py ''Slide2.JPG'', clip_duration = 4, clip_audio = None\<rparr>,
          \<lparr>clip_image = py ''Slide3.JPG'', clip_duration = 3.5,
           clip_audio = Some (py ''slide_3_en.mp3'')\<rparr>] (py ''compose''),
       WriteVideofile (py ''talk_en.mp4'') 24 (py ''libx264'') True (py ''libmp3lame'') 4])"
    by (simp add: assemble_video_def assemble_loop.simps slide_clip_def py_def
        io_return_def io_bind_def call_command_def call_audio_file_clip_def demo_env_def
        module_globals_def Let_def)
  from assemble_video_durations[OF run]
  have "POST_AUDIO_PADDING (module_globals demo_env) = 1.5"
    by blast
  with run show ?thesis by blast
qed

section \<open>Slide images\<close>

text \<open>
  Claim C9. When \<open>export_slides_as_images\<close> returns, it has made the calls to the
  presentation application and read the export directory \<open>slide_image\<close> under the
  absolute output directory, and its result is a list of file names, each joined to the
  path of the export directory, where the file names are sorted and are exactly the
  entries of the directory whose names end with \<open>.JPG\<close>, each as often as the directory
  lists it.
\<close>

theorem export_slides_as_images_sorted:
  assumes "export_slides_as_images e g pptx_path out_dir h = (Inr images, h')"
  shows "\<exists>names fs.
     listdir e (h @ export_calls e pptx_path out_dir)
       (path_join e (path_abspath e out_dir) (py ''slide_image'')) = Inr names \<and>
     images = map (path_join e (path_join e (path_abspath e out_dir) (py ''slide_image''))) fs \<and>
     sorted fs \<and>
     mset fs = filter_mset (\<lambda>f. endswith f (py ''.JPG'')) (mset names) \<and>
     h' = h @ export_calls e pptx_path out_dir @
            [Listdir (path_join e (path_abspath e out_dir) (py ''slide_image''))]"
proof -
  from export_slides_Inr[OF assms] obtain names where
    names: "listdir e (h @ export_calls e pptx_path out_dir)
       (path_join e (path_abspath e out_dir) (py ''slide_image'')) = Inr names"
    "images =
       map (path_join e (path_join e (path_abspath e out_dir) (py ''slide_image'')))
         (filter (\<lambda>f. endswith f (py ''.JPG'')) (sort names))"
    "h' = h @ export_calls e pptx_path out_dir @
            [Listdir (path_join e (path_abspath e out_dir) (py ''slide_image''))]"
    by blast
  let ?fs = "filter (\<lambda>f. endswith f (py ''.JPG'')) (sort names)"
  have "sorted ?fs"
    by (rule sorted_wrt_filter) simp
  moreover have "mset ?fs = filter_mset (\<lambda>f. endswith f (py ''.JPG'')) (mset names)"
    by simp
  ultimately show ?thesis using names by blast
qed

text \<open>
  A directory that lists \<open>Slide2.JPG\<close>, \<open>notes.txt\<close>, \<open>Slide3.JPG\<close> and \<open>Slide1.JPG\<close>, in
  this order.
\<close>

theorem export_slides_as_images_sorted_witness:
  "export_slides_as_images demo_env (module_globals demo_env) (py ''/decks/talk.pptx'')
      (py ''/app/tmp_assets'') [] =
     (Inr [py ''/app/tmp_assets/slide_image/Slide1.JPG'',
           py ''/app/tmp_assets/slide_image/Slide2.JPG'',
           py ''/app/tmp_assets/slide_image/Slide3.JPG''],
      [Dispatch (py ''PowerPoint.Application''), SetVisible True,
       PresentationsOpen (py ''/decks/talk.pptx'') False,
       SaveAs (py ''/app/tmp_assets/slide_image'') 17, PresentationClose, ApplicationQuit,
       Listdir (py ''/app/tmp_assets/slide_image'')]) \<and>
   [Dispatch (py ''PowerPoint.Application''), SetVisible True,
    PresentationsOpen (py ''/decks/talk.pptx'') False,
    SaveAs (py ''/app/tmp_assets/slide_image'') 17, PresentationClose, ApplicationQuit,
    Listdir (py ''/app/tmp_assets/slide_image'')] =
     [] @ export_calls demo_env (py ''/decks/talk.pptx'') (py ''/app/tmp_assets'') @
       [Listdir (path_join demo_env (path_abspath demo_env (py ''/app/tmp_assets''))
          (py ''slide_image''))]"
proof -
  have run: "export_slides_as_images demo_env (module_globals demo_env) (py ''/decks/talk.pptx'')
      (py ''/app/tmp_assets'') [] =
     (Inr [py ''/app/tmp_assets/slide_image/Slide1.JPG'',
           py ''/app/tmp_assets/slide_image/Slide2.JPG'',
           py ''/app/tmp_assets/slide_image/Slide3.JPG''],
      [Dispatch (py ''PowerPoint.Application''), SetVisible True,
       PresentationsOpen (py ''/decks/talk.pptx'') False,
       SaveAs (py ''/app/tmp_assets/slide_image'') 17, PresentationClose, ApplicationQuit,
       Listdir (py ''/app/tmp_assets/slide_image'')])"
    by (simp add: run_defs)
  from export_slides_as_images_sorted[OF run]
  have "[Dispatch (py ''PowerPoint.Application''), SetVisible True,
    PresentationsOpen (py ''/decks/talk.pptx'') False,
    SaveAs (py ''/app/tmp_assets/slide_image'') 17, PresentationClose, ApplicationQuit,
    Listdir (py ''/app/tmp_assets/slide_image'')] =
     [] @ export_calls demo_env (py ''/decks/talk.pptx'') (py ''/app/tmp_assets'') @
       [Listdir (path_join demo_env (path_abspath demo_env (py ''/app/tmp_assets''))
          (py ''slide_image''))]"
    by blast
  with run show ?thesis by blast
qed

section \<open>Failures\<close>

text \<open>
  Claim C8. The calls a run of \<open>run_pipeline\<close> makes extend the history, and they end as
  its result says. When the run returns, every external call it made was answered.
  When an exception ended the run, the exception is the one raised by the last call
  made, every call before it was answered and no call was made after it; and the run
  ends with the same exception after the same calls whatever languages follow in the
  list, so the languages after the one that failed are not processed.
\<close>

theorem run_pipeline_failure_propagates:
  assumes "run_pipeline e g pptx_path langs h = (r, h')"
  shows "\<exists>t. h' = h @ t \<and>
     (case r of
        Inr u \<Rightarrow> all_answered e h t
      | Inl err \<Rightarrow>
          t \<noteq> [] \<and> all_answered e h (butlast t) \<and> raises e (h @ butlast t) (last t) = Some err \<and>
          (\<forall>later. run_pipeline e g pptx_path (langs @ later) h = (Inl err, h')))"
proof -
  from run_pipeline_ends_as[of e g pptx_path langs h] assms
  obtain t where t: "h' = h @ t" "ends_as e h t r"
    by auto
  show ?thesis
  proof (cases r)
    case (Inl err)
    with assms have "run_pipeline e g pptx_path (langs @ later) h = (Inl err, h')" for later
      by (simp add: run_pipeline_stops)
    with t Inl show ?thesis
      by (auto simp: ends_as_def)
  next
    case (Inr u)
    with t show ?thesis
      by (auto simp: ends_as_def)
  qed
qed

text \<open>
  A deck processed for French and Spanish where saving the first French audio file
  raises: the run ends there, and Spanish or any later language is never reached.
\<close>

theorem run_pipeline_failure_propagates_witness:
  "run_pipeline failing_env (module_globals failing_env) (py ''/decks/talk.pptx'')
      [\<lparr>le_code = py ''fr'', le_label = py ''French''\<rparr>,
       \<lparr>le_code = py ''es'', le_label = py ''Spanish''\<rparr>] [] =
     (Inl (Raised (py ''gTTSError'')),
      [Presentation (py ''/decks/talk.pptx''),
       Dispatch (py ''PowerPoint.Application''), SetVisible True,
       PresentationsOpen (py ''/decks/talk.pptx'') False,
       SaveAs (py ''/app/tmp_assets/slide_image'') 17, PresentationClose, ApplicationQuit,
       Listdir (py ''/app/tmp_assets/slide_image''),
       GoogleTranslate (py ''auto'') (py ''fr'') (py ''Hello''),
       GoogleTranslate (py ''auto'') (py ''fr'') (py ''World''),
       GTTS (py ''fr:Hello'') (py ''fr''),
       TtsSave (py ''/app/tmp_assets/slide_1_fr.mp3'')]) \<and>
   run_pipeline failing_env (module_globals failing_env) (py ''/decks/talk.pptx'')
      ([\<lparr>le_code = py ''fr'', le_label = py ''French''\<rparr>,
        \<lparr>le_code = py ''es'', le_label = py ''Spanish''\<rparr>] @
       [\<lparr>le_code = py ''pt'', le_label = py ''Portuguese''\<rparr>]) [] =
     (Inl (Raised (py ''gTTSError'')),
      [Presentation (py ''/decks/talk.pptx''),
       Dispatch (py ''PowerPoint.Application''), SetVisible True,
       PresentationsOpen (py ''/decks/talk.pptx'') False,
       SaveAs (py ''/app/tmp_assets/slide_image'') 17, PresentationClose, ApplicationQuit,
       Listdir (py ''/app/tmp_assets/slide_image''),
       GoogleTranslate (py ''auto'') (py ''fr'') (py ''Hello''),
       GoogleTranslate (py ''auto'') (py ''fr'') (py ''World''),
       GTTS (py ''fr:Hello'') (py ''fr''),
       TtsSave (py ''/app/tmp_assets/slide_1_fr.mp3'')])"
proof -
  have run: "run_pipeline failing_env (module_globals failing_env) (py ''/decks/talk.pptx'')
      [\<lparr>le_code = py ''fr'', le_label = py ''French''\<rparr>,
       \<lparr>le_code = py ''es'', le_label = py ''Spanish''\<rparr>] [] =
     (Inl (Raised (py ''gTTSError'')),
      [Presentation (py ''/decks/talk.pptx''),
       Dispatch (py ''PowerPoint.Application''), SetVisible True,
       PresentationsOpen (py ''/decks/talk.pptx'') False,
       SaveAs (py ''/app/tmp_assets/slide_image'') 17, PresentationClose, ApplicationQuit,
       Listdir (py ''/app/tmp_assets/slide_image''),
       GoogleTranslate (py ''auto'') (py ''fr'') (py ''Hello''),
       GoogleTranslate (py ''auto'') (py ''fr'') (py ''World''),
       GTTS (py ''fr:Hello'') (py ''fr''),
       TtsSave (py ''/app/tmp_assets/slide_1_fr.mp3'')])"
    by (simp add: run_pipeline_def run_pipeline_languages.simps run_pipeline_language_def
        extract_notes_from_pptx_def notes_text_of_def export_slides_as_images_def
        translate_texts_def translate_loop.simps narration_loop.simps synthesize_speech_def
        py_def strip_def isspace_def endswith_def str_of_nat.simps
        io_return_def io_bind_def call_translate_def call_command_def call_presentation_def
        call_listdir_def failing_env_def demo_env_def demo_slides_def module_globals_def Let_def)
  from run_pipeline_failure_propagates[OF run]
  have "run_pipeline failing_env (module_globals failing_env) (py ''/decks/talk.pptx'')
      ([\<lparr>le_code = py ''fr'', le_label = py ''French''\<rparr>,
        \<lparr>le_code = py ''es'', le_label = py ''Spanish''\<rparr>] @
       [\<lparr>le_code = py ''pt'', le_label = py ''Portuguese''\<rparr>]) [] =
     (Inl (Raised (py ''gTTSError'')),
      [Presentation (py ''/decks/talk.pptx''),
       Dispatch (py ''PowerPoint.Application''), SetVisible True,
       PresentationsOpen (py ''/decks/talk.pptx'') False,
       SaveAs (py ''/app/tmp_assets/slide_image'') 17, PresentationClose, ApplicationQuit,
       Listdir (py ''/app/tmp_assets/slide_image''),
       GoogleTranslate (py ''auto'') (py ''fr'') (py ''Hello''),
       GoogleTranslate (py ''auto'') (py ''fr'') (py ''World''),
       GTTS (py ''fr:Hello'') (py ''fr''),
       TtsSave (py ''/app/tmp_assets/slide_1_fr.mp3'')])"
    by auto
  with run show ?thesis by blast
qed

section \<open>Output files\<close>

text \<open>
  Claim C4. The output directory of the module is \<open>output_videos\<close> joined to the
  directory of the script. In a run of \<open>run_pipeline\<close> the videos written are, in the
  order of the languages, the files \<open>os.path.join(OUTPUT_DIR, f"{stem}_{code}.mp4")\<close>,
  where \<open>stem\<close> is the first component of \<open>os.path.splitext\<close> of the base name of the
  deck path and \<open>code\<close> the code of the language: one for every language when the run
  returns, one for each of the first languages when an exception ends the run.
\<close>

theorem output_video_paths:
  assumes "run_pipeline e g pptx_path langs h = (r, h')"
  shows "OUTPUT_DIR (module_globals e) =
       path_join e (path_dirname e (path_abspath e (script_file e))) (py ''output_videos'') \<and>
     (\<exists>k\<le>length langs.
        written_videos (drop (length h) h') =
          map (\<lambda>lang. path_join e (OUTPUT_DIR g)
                 (fst (path_splitext e (path_basename e pptx_path)) @ py ''_'' @ le_code lang @
                  py ''.mp4''))
            (take k langs) \<and>
        (r = Inr () \<longrightarrow> k = length langs))"
proof -
  let ?out = "\<lambda>lang. path_join e (OUTPUT_DIR g)
                 (fst (path_splitext e (path_basename e pptx_path)) @ py ''_'' @ le_code lang @
                  py ''.mp4'')"
  have dir: "OUTPUT_DIR (module_globals e) =
       path_join e (path_dirname e (path_abspath e (script_file e))) (py ''output_videos'')"
    by (simp add: module_globals_def Let_def)
  obtain r1 h1 where x: "extract_notes_from_pptx e g pptx_path h = (r1, h1)"
    by (cases "extract_notes_from_pptx e g pptx_path h") blast
  from extract_notes_writes_nothing[of e g pptx_path h] x
  obtain t1 where t1: "h1 = h @ t1" "written_videos t1 = []"
    by (auto intro: written_videos_none)
  have "\<exists>k\<le>length langs. written_videos (drop (length h) h') = map ?out (take k langs) \<and>
        (r = Inr () \<longrightarrow> k = length langs)"
  proof (cases r1)
    case (Inl err)
    with assms x have "r = Inl err" "h' = h1"
      by (simp_all add: run_pipeline_apply)
    with t1 have "0 \<le> length langs \<and> written_videos (drop (length h) h') = map ?out (take 0 langs) \<and>
        (r = Inr () \<longrightarrow> 0 = length langs)"
      by simp
    then show ?thesis by blast
  next
    case (Inr slides)
    obtain r2 h2 where y: "export_slides_as_images e g pptx_path (TMP_DIR g) h1 = (r2, h2)"
      by (cases "export_slides_as_images e g pptx_path (TMP_DIR g) h1") blast
    from export_slides_writes_nothing[of e g pptx_path "TMP_DIR g" h1] y
    obtain t2 where t2: "h2 = h1 @ t2" "written_videos t2 = []"
      by (auto intro: written_videos_none)
    show ?thesis
    proof (cases r2)
      case (Inl err)
      with assms x y Inr have "r = Inl err" "h' = h2"
        by (simp_all add: run_pipeline_apply)
      with t1 t2 have "0 \<le> length langs \<and>
          written_videos (drop (length h) h') = map ?out (take 0 langs) \<and>
          (r = Inr () \<longrightarrow> 0 = length langs)"
        by (simp add: written_videos_append)
      then show ?thesis by blast
    next
      case r2: (Inr images)
      with assms x y Inr
      have "run_pipeline_languages e g pptx_path (map sd_notes slides) images langs h2 = (r, h')"
        by (simp add: run_pipeline_apply)
      from run_pipeline_languages_writes[OF this] obtain t k where
        t: "h' = h2 @ t" "k \<le> length langs" "written_videos t = map ?out (take k langs)"
          "r = Inr () \<longrightarrow> k = length langs"
        by blast
      with t1 t2 have "k \<le> length langs \<and>
          written_videos (drop (length h) h') = map ?out (take k langs) \<and>
          (r = Inr () \<longrightarrow> k = length langs)"
        by (simp add: written_videos_append)
      then show ?thesis by blast
    qed
  qed
  with dir show ?thesis by blast
qed

text \<open>The deck \<open>/decks/talk.pptx\<close>, processed for English and French.\<close>

theorem output_video_paths_witness:
  "fst (run_pipeline demo_env (module_globals demo_env) (py ''/decks/talk.pptx'')
      [\<lparr>le_code = py ''en'', le_label = py ''English''\<rparr>,
       \<lparr>le_code = py ''fr'', le_label = py ''French''\<rparr>] []) = Inr () \<and>
   written_videos (drop (length ([] :: call list))
      (snd (run_pipeline demo_env (module_globals demo_env) (py ''/decks/talk.pptx'')
        [\<lparr>le_code = py ''en'', le_label = py ''English''\<rparr>,
         \<lparr>le_code = py ''fr'', le_label = py ''French''\<rparr>] []))) =
     [py ''/app/output_videos/talk_en.mp4'', py ''/app/output_videos/talk_fr.mp4''] \<and>
   OUTPUT_DIR (module_globals demo_env) = py ''/app/output_videos''"
proof -
  have res: "fst (run_pipeline demo_env (module_globals demo_env) (py ''/decks/talk.pptx'')
      [\<lparr>le_code = py ''en'', le_label = py ''English''\<rparr>,
       \<lparr>le_code = py ''fr'', le_label = py ''French''\<rparr>] []) = Inr ()"
    by (simp add: run_defs)
  have run: "run_pipeline demo_env (module_globals demo_env) (py ''/decks/talk.pptx'')
      [\<lparr>le_code = py ''en'', le_label = py ''English''\<rparr>,
       \<lparr>le_code = py ''fr'', le_label = py ''French''\<rparr>] [] =
    (fst (run_pipeline demo_env (module_globals demo_env) (py ''/decks/talk.pptx'')
      [\<lparr>le_code = py ''en'', le_label = py ''English''\<rparr>,
       \<lparr>le_code = py ''fr'', le_label = py ''French''\<rparr>] []),
     snd (run_pipeline demo_env (module_globals demo_env) (py ''/decks/talk.pptx'')
      [\<lparr>le_code = py ''en'', le_label = py ''English''\<rparr>,
       \<lparr>le_code = py ''fr'', le_label = py ''French''\<rparr>] []))"
    by simp
  have paths: "map (\<lambda>lang. path_join demo_env (OUTPUT_DIR (module_globals demo_env))
                 (fst (path_splitext demo_env (path_basename demo_env (py ''/decks/talk.pptx''))) @
                  py ''_'' @ le_code lang @ py ''.mp4''))
            [\<lparr>le_code = py ''en'', le_label = py ''English''\<rparr>,
             \<lparr>le_code = py ''fr'', le_label = py ''French''\<rparr>] =
     [py ''/app/output_videos/talk_en.mp4'', py ''/app/output_videos/talk_fr.mp4'']"
    by (simp add: py_def demo_env_def module_globals_def Let_def)
  have dir: "OUTPUT_DIR (module_globals demo_env) = py ''/app/output_videos''"
    by (simp add: py_def demo_env_def module_globals_def Let_def)
  from output_video_paths[OF run] res paths
  have "written_videos (drop (length ([] :: call list))
      (snd (run_pipeline demo_env (module_globals demo_env) (py ''/decks/talk.pptx'')
        [\<lparr>le_code = py ''en'', le_label = py ''English''\<rparr>,
         \<lparr>le_code = py ''fr'', le_label = py ''French''\<rparr>] []))) =
     [py ''/app/output_videos/talk_en.mp4'', py ''/app/output_videos/talk_fr.mp4'']"
    by auto
  with res dir show ?thesis by blast
qed

section \<open>The source language\<close>



section \<open>Configuration that is not used\<close>

text \<open>
  Claim C6. The block under \<open>__main__\<close> runs the pipeline on the deck of the command
  line with the list \<open>LANGUAGES\<close> of the module, which has the six languages \<open>en\<close>, \<open>fr\<close>,
  \<open>es\<close>, \<open>pt\<close>, \<open>hi\<close> and \<open>si\<close>; replacing the value of \<open>--languages\<close> by any other value
  changes nothing: the same calls are made and the result is the same.
\<close>

theorem languages_argument_ignored:
  "main e g (a\<lparr>languages := ls\<rparr>) = main e g a \<and>
   main e g a = run_pipeline e g (pptx a) (LANGUAGES g) \<and>
   map le_code (LANGUAGES (module_globals e)) =
     [py ''en'', py ''fr'', py ''es'', py ''pt'', py ''hi'', py ''si'']"
  by (simp add: main_def module_globals_def Let_def)

text \<open>
  Claim C7. \<open>synthesize_speech\<close> makes the call \<open>gTTS(text=text, lang=lang_code)\<close>, which
  depends on the text and the language code only, and then saves to the output path.
  It reads no global name, and \<open>run_pipeline\<close> and the main block do not read the voice
  table: with any other table in the place of \<open>default_voice\<close> they make the same calls and
  have the same result.
\<close>

theorem default_voice_unused:
  "synthesize_speech e g text lang_code out_path h =
     (case command e h (GTTS text lang_code) of
        Some err \<Rightarrow> (Inl err, h @ [GTTS text lang_code])
      | None \<Rightarrow>
          (case command e (h @ [GTTS text lang_code]) (TtsSave out_path) of
             Some err \<Rightarrow> (Inl err, h @ [GTTS text lang_code, TtsSave out_path])
           | None \<Rightarrow> (Inr out_path, h @ [GTTS text lang_code, TtsSave out_path]))) \<and>
   synthesize_speech e g' text lang_code out_path = synthesize_speech e g text lang_code out_path \<and>
   run_pipeline e (g\<lparr>default_voice := v\<rparr>) pptx_path langs = run_pipeline e g pptx_path langs \<and>
   main e (g\<lparr>default_voice := v\<rparr>) a = main e g a"
proof -
  have "run_pipeline e (g\<lparr>default_voice := v\<rparr>) p ls = run_pipeline e g p ls" for p ls
    by (rule run_pipeline_globals) simp_all
  moreover have "synthesize_speech e g' text lang_code out_path =
      synthesize_speech e g text lang_code out_path"
    by (simp add: synthesize_speech_def)
  ultimately show ?thesis
    by (simp add: synthesize_speech_apply main_def)
qed

end
